theory Spec2Isabelle
  imports Complex_Main "HOL-Library.Word" "HOL-Library.Log_Nat"
begin

section \<open>netviz/one\_page\_report.cpp\<close>

text \<open>
  The report object of \<^verbatim>\<open>one_page_report.cpp\<close> aggregates per-packet statistics
  (\<^verbatim>\<open>ingest_packet\<close>) and afterwards lays out one page (\<^verbatim>\<open>render\<close>).
  Machine integers keep their width: \<^verbatim>\<open>uint64_t\<close> counters are \<open>64 word\<close>, so that
  \<open>+\<close> wraps as in C++.
\<close>

type_synonym u8 = "8 word"
type_synonym u16 = "16 word"
type_synonym u32 = "32 word"
type_synonym u64 = "64 word"


section \<open>Binary64 arithmetic\<close>

text \<open>
  The C++ type \<^verbatim>\<open>double\<close> is IEEE 754 binary64 with round-to-nearest-even. A finite
  value is represented by the rational number it denotes (the sign of zero is not kept:
  every zero divisor of this program comes from an unsigned integer and is \<open>+0\<close>);
  the other values are the two infinities and NaN.
\<close>

datatype double = Fin rat | PInf | MInf | NaN

text \<open>\<open>flog2 q\<close> is \<open>\<lfloor>log\<^sub>2 q\<rfloor>\<close> for \<open>q > 0\<close>.\<close>

definition flog2 :: "rat \<Rightarrow> int" where
  "flog2 q = (if 1 \<le> q then bitlen \<lfloor>q\<rfloor> - 1 else - bitlen (\<lceil>1 / q\<rceil> - 1))"

definition round_half_even :: "rat \<Rightarrow> int" where
  "round_half_even q =
     (let f = \<lfloor>q\<rfloor>; d = q - of_int f
      in if d < 1 / 2 then f else if 1 / 2 < d then f + 1 else if even f then f else f + 1)"

text \<open>
  The nearest number with a 53-bit significand, for \<open>q > 0\<close>: the unit of the last place
  is \<open>2 ^ (\<lfloor>log\<^sub>2 q\<rfloor> - 52)\<close>, and \<open>2 ^ -1074\<close> in the subnormal range.
\<close>

definition round53 :: "rat \<Rightarrow> rat" where
  "round53 q =
     (let e = max (flog2 q - 52) (- 1074)
      in of_int (round_half_even (q / 2 powi e)) * 2 powi e)"

text \<open>
  Values at or beyond \<open>2 ^ 1024 - 2 ^ 970\<close> (half a unit in the last place above the
  largest finite double) round to infinity. The constant is written as a numeral.
\<close>

definition overflow_threshold :: rat where
  "overflow_threshold =
     0xFFFFFFFFFFFFFC00000000000000000000000000000000000000000000000000000000000000000000000000000000000000000000000000000000000000000000000000000000000000000000000000000000000000000000000000000000000000000000000000000000000000000000000000000000000000000000000000"

definition rnd :: "rat \<Rightarrow> double" where
  "rnd q =
     (if q = 0 then Fin 0
      else if 0 < q then (if overflow_threshold \<le> q then PInf else Fin (round53 q))
      else (if overflow_threshold \<le> - q then MInf else Fin (- round53 (- q))))"

fun fneg :: "double \<Rightarrow> double" where
  "fneg (Fin a) = Fin (- a)"
| "fneg PInf = MInf"
| "fneg MInf = PInf"
| "fneg NaN = NaN"

fun fadd :: "double \<Rightarrow> double \<Rightarrow> double" where
  "fadd (Fin a) (Fin b) = rnd (a + b)"
| "fadd NaN _ = NaN"
| "fadd _ NaN = NaN"
| "fadd PInf MInf = NaN"
| "fadd MInf PInf = NaN"
| "fadd PInf _ = PInf"
| "fadd MInf _ = MInf"
| "fadd (Fin a) b = b"

definition fsub :: "double \<Rightarrow> double \<Rightarrow> double" where
  "fsub a b = fadd a (fneg b)"

text \<open>An infinity with the sign of \<open>s\<close>.\<close>

definition signed_inf :: "rat \<Rightarrow> double" where
  "signed_inf s = (if 0 \<le> s then PInf else MInf)"

fun fmul :: "double \<Rightarrow> double \<Rightarrow> double" where
  "fmul (Fin a) (Fin b) = rnd (a * b)"
| "fmul NaN _ = NaN"
| "fmul _ NaN = NaN"
| "fmul (Fin a) PInf = (if a = 0 then NaN else signed_inf a)"
| "fmul (Fin a) MInf = (if a = 0 then NaN else signed_inf (- a))"
| "fmul PInf (Fin b) = (if b = 0 then NaN else signed_inf b)"
| "fmul MInf (Fin b) = (if b = 0 then NaN else signed_inf (- b))"
| "fmul PInf PInf = PInf"
| "fmul MInf MInf = PInf"
| "fmul PInf MInf = MInf"
| "fmul MInf PInf = MInf"

fun fdiv :: "double \<Rightarrow> double \<Rightarrow> double" where
  "fdiv (Fin a) (Fin b) =
     (if b = 0 then (if a = 0 then NaN else signed_inf a) else rnd (a / b))"
| "fdiv NaN _ = NaN"
| "fdiv _ NaN = NaN"
| "fdiv (Fin a) _ = Fin 0"
| "fdiv PInf (Fin b) = (if 0 \<le> b then PInf else MInf)"
| "fdiv MInf (Fin b) = (if 0 \<le> b then MInf else PInf)"
| "fdiv _ _ = NaN"

text \<open>\<^verbatim>\<open>a < b\<close> on doubles; every comparison with NaN is false.\<close>

fun flt :: "double \<Rightarrow> double \<Rightarrow> bool" where
  "flt (Fin a) (Fin b) = (a < b)"
| "flt NaN _ = False"
| "flt _ NaN = False"
| "flt _ MInf = False"
| "flt PInf _ = False"
| "flt _ PInf = True"
| "flt MInf _ = True"

text \<open>\<^verbatim>\<open>std::max(a, b)\<close> is \<^verbatim>\<open>(a < b) ? b : a\<close>.\<close>

definition fmax :: "double \<Rightarrow> double \<Rightarrow> double" where
  "fmax a b = (if flt a b then b else a)"

text \<open>\<^verbatim>\<open>(double) n\<close> for an unsigned 64-bit \<open>n\<close>: the nearest double.\<close>

definition double_of_u64 :: "u64 \<Rightarrow> double" where
  "double_of_u64 n = rnd (of_nat (unat n))"

text \<open>\<^verbatim>\<open>a >= b\<close> on doubles.\<close>

definition fge :: "double \<Rightarrow> double \<Rightarrow> bool" where
  "fge a b = (flt b a \<or> (a = b \<and> a \<noteq> NaN))"

text \<open>
  \<^verbatim>\<open>(uint64_t) d\<close> and \<^verbatim>\<open>(uint8_t) d\<close> truncate towards zero. C++ leaves the result
  open when the truncated value is not a value of the target type; the model gives the value
  that the x86-64 code of the build computes. There the instruction \<^verbatim>\<open>cvttsd2si\<close>
  converts to a signed integer of \<open>w\<close> bits and returns the smallest one,
  \<open>- 2 ^ (w - 1)\<close>, for a NaN, an infinity and a value out of its range. The conversion
  to \<^verbatim>\<open>uint8_t\<close> keeps the low byte of the 32-bit result; the conversion to
  \<^verbatim>\<open>uint64_t\<close> converts \<open>d\<close> itself below \<open>2 ^ 63\<close> and otherwise converts
  \<open>d - 2 ^ 63\<close> and flips the top bit.
\<close>

definition trunc_to_zero :: "rat \<Rightarrow> int" where
  "trunc_to_zero q = (if 0 \<le> q then \<lfloor>q\<rfloor> else \<lceil>q\<rceil>)"

fun cvttsd2si :: "nat \<Rightarrow> double \<Rightarrow> int" where
  "cvttsd2si w (Fin q) =
     (if - (2 ^ (w - 1)) \<le> trunc_to_zero q \<and> trunc_to_zero q < 2 ^ (w - 1)
      then trunc_to_zero q else - (2 ^ (w - 1)))"
| "cvttsd2si w _ = - (2 ^ (w - 1))"

definition u64_of_double :: "double \<Rightarrow> u64" where
  "u64_of_double d =
     (if fge d (Fin (2 ^ 63))
      then word_of_int (cvttsd2si 64 (fsub d (Fin (2 ^ 63)))) + 2 ^ 63
      else word_of_int (cvttsd2si 64 d))"

definition u8_of_double :: "double \<Rightarrow> u8" where
  "u8_of_double d = word_of_int (cvttsd2si 32 d)"

section \<open>Data model\<close>

text \<open>\<^verbatim>\<open>plot_view::bounds_t\<close>.\<close>

record bounds_t =
  b_x :: double
  b_y :: double
  b_width :: double
  b_height :: double

text \<open>\<^verbatim>\<open>struct timeval\<close>: both fields are signed integers that are only assigned and compared.\<close>

record timeval =
  tv_sec :: int
  tv_usec :: int

text \<open>
  \<^verbatim>\<open>be13::packet_info\<close> is declared outside this file. The record holds what
  \<^verbatim>\<open>ingest_packet\<close> reads from it: the fields \<^verbatim>\<open>ts\<close>, \<^verbatim>\<open>pcap_hdr->caplen\<close>,
  \<^verbatim>\<open>ip_data\<close>, \<^verbatim>\<open>ip_datalen\<close>, and the values returned by its accessors
  \<^verbatim>\<open>ether_type()\<close>, \<^verbatim>\<open>is_ip4()\<close>, \<^verbatim>\<open>is_ip6()\<close>, \<^verbatim>\<open>is_ip4_tcp()\<close>, \<^verbatim>\<open>is_ip6_tcp()\<close>,
  \<^verbatim>\<open>get_ip4_tcp_sport()\<close>, \<^verbatim>\<open>get_ip4_tcp_dport()\<close>, \<^verbatim>\<open>get_ip6_tcp_sport()\<close> and
  \<^verbatim>\<open>get_ip6_tcp_dport()\<close>. \<^verbatim>\<open>ip_datalen\<close> is only handed on to the stores.
\<close>

record packet_info =
  ts :: timeval
  caplen :: u32
  ether_type :: u16
  is_ip4 :: bool
  is_ip6 :: bool
  is_ip4_tcp :: bool
  is_ip6_tcp :: bool
  ip_data :: "u8 list"
  ip_datalen :: nat
  get_ip4_tcp_sport :: u16
  get_ip4_tcp_dport :: u16
  get_ip6_tcp_sport :: u16
  get_ip6_tcp_dport :: u16

text \<open>
  Offsets of the address fields inside the IP header (static members of
  \<^verbatim>\<open>packet_info\<close>, declared outside this file; the values are those of the IPv4 and
  IPv6 header layouts).
\<close>

definition ip4_src_off :: nat where "ip4_src_off = 12"
definition ip4_dst_off :: nat where "ip4_dst_off = 16"
definition ip6_src_off :: nat where "ip6_src_off = 8"
definition ip6_dst_off :: nat where "ip6_dst_off = 24"

text \<open>
  \<^verbatim>\<open>(uint8_t *) pi.ip_data + off\<close> with a length \<open>n\<close>: the \<open>n\<close> bytes starting at
  \<open>off\<close>. (On a buffer shorter than \<open>off + n\<close> the C++ code reads past the packet;
  the model returns the bytes that exist.)
\<close>

definition addr_bytes :: "u8 list \<Rightarrow> nat \<Rightarrow> nat \<Rightarrow> u8 list" where
  "addr_bytes buf off n = take n (drop off buf)"

text \<open>
  \<^verbatim>\<open>std::map<uint32_t, uint64_t>\<close>: the entries in ascending key order, one per key.
  \<open>map_index\<close> is \<^verbatim>\<open>operator[]\<close>: it inserts the key with value 0 when the key is absent
  and leaves the map alone otherwise; \<open>map_at\<close> is the value \<^verbatim>\<open>operator[]\<close> then refers to.
\<close>

type_synonym transport_map = "(u32 \<times> u64) list"

fun map_index :: "u32 \<Rightarrow> transport_map \<Rightarrow> transport_map" where
  "map_index k [] = [(k, 0)]"
| "map_index k ((k', v) # m) =
     (if k = k' then (k', v) # m
      else if k < k' then (k, 0) # (k', v) # m
      else (k', v) # map_index k m)"

fun map_at :: "transport_map \<Rightarrow> u32 \<Rightarrow> u64" where
  "map_at [] k = 0"
| "map_at ((k', v) # m) k = (if k = k' then v else map_at m k)"

fun map_store :: "u32 \<Rightarrow> u64 \<Rightarrow> transport_map \<Rightarrow> transport_map" where
  "map_store k w [] = []"
| "map_store k w ((k', v) # m) = (if k = k' then (k', w) # m else (k', v) # map_store k w m)"

text \<open>\<^verbatim>\<open>m[k]++\<close>: index (inserting when absent), then add one to the entry.\<close>

definition map_incr :: "u32 \<Rightarrow> transport_map \<Rightarrow> transport_map" where
  "map_incr k m = (let m' = map_index k m in map_store k (map_at m' k + 1) m')"

text \<open>
  The aggregate stores (\<^verbatim>\<open>iptree\<close>, \<^verbatim>\<open>port_histogram\<close>, \<^verbatim>\<open>time_histogram\<close>) are
  implemented outside this file. Each is represented by the sequence of feeding calls it has
  received, oldest first: \<^verbatim>\<open>add(addr, addr_len, val)\<close> as the pair of the address bytes and
  the value, \<^verbatim>\<open>increment(port, delta)\<close> and \<^verbatim>\<open>insert(ts, port)\<close> as the pair of their
  arguments.
\<close>

type_synonym iptree = "(u8 list \<times> nat) list"
type_synonym port_histogram = "(u16 \<times> nat) list"
type_synonym time_histogram = "(timeval \<times> u16) list"

definition iptree_add :: "iptree \<Rightarrow> u8 list \<Rightarrow> nat \<Rightarrow> iptree" where
  "iptree_add t addr val = t @ [(addr, val)]"

definition port_histogram_increment :: "port_histogram \<Rightarrow> u16 \<Rightarrow> nat \<Rightarrow> port_histogram" where
  "port_histogram_increment h port delta = h @ [(port, delta)]"

definition time_histogram_insert :: "time_histogram \<Rightarrow> timeval \<Rightarrow> u16 \<Rightarrow> time_histogram" where
  "time_histogram_insert h t port = h @ [(t, port)]"

text \<open>
  The aggregate members of \<^verbatim>\<open>one_page_report\<close>. (\<^verbatim>\<open>pfall\<close>, \<^verbatim>\<open>netmap\<close>,
  \<^verbatim>\<open>port_aliases\<close> and \<^verbatim>\<open>port_color_map\<close> are never written after construction by
  the functions of this file and are left out.)
\<close>

record one_page_report =
  source_identifier :: string
  filename :: string
  bounds :: bounds_t
  header_font_size :: double
  top_list_font_size :: double
  histogram_show_top_n_text :: nat
  packet_count :: u64
  byte_count :: u64
  earliest :: timeval
  latest :: timeval
  transport_counts :: transport_map
  packet_histogram :: time_histogram
  src_port_histogram :: port_histogram
  dst_port_histogram :: port_histogram
  src_tree :: iptree
  dst_tree :: iptree

text \<open>The constructor.\<close>

definition new_report :: one_page_report where
  "new_report =
     \<lparr> source_identifier = [], filename = ''report.pdf'',
       bounds = \<lparr> b_x = Fin 0, b_y = Fin 0, b_width = Fin 611, b_height = Fin 792 \<rparr>,
       header_font_size = Fin 8, top_list_font_size = Fin 8,
       histogram_show_top_n_text = 3,
       packet_count = 0, byte_count = 0,
       earliest = \<lparr> tv_sec = 0, tv_usec = 0 \<rparr>,
       latest = \<lparr> tv_sec = 0, tv_usec = 0 \<rparr>,
       transport_counts = [],
       packet_histogram = [], src_port_histogram = [], dst_port_histogram = [],
       src_tree = [], dst_tree = [] \<rparr>"

section \<open>ingest\_packet\<close>

text \<open>Lines 65--74: time range and counters, done for every record.\<close>

definition ingest_counters :: "one_page_report \<Rightarrow> packet_info \<Rightarrow> one_page_report" where
  "ingest_counters r pkt =
     (let r1 = (if tv_sec (earliest r) = 0 then r\<lparr> earliest := ts pkt \<rparr> else r);
          r2 = (if tv_sec (ts pkt) > tv_sec (latest r1) \<and> tv_usec (ts pkt) > tv_usec (latest r1)
                then r1\<lparr> latest := ts pkt \<rparr> else r1)
      in r2\<lparr> packet_count := packet_count r2 + 1,
             byte_count := byte_count r2 + ucast (caplen pkt),
             transport_counts := map_incr (ucast (ether_type pkt)) (transport_counts r2) \<rparr>)"

text \<open>Lines 119--121: the TCP views.\<close>

definition feed_tcp :: "one_page_report \<Rightarrow> packet_info \<Rightarrow> u16 \<Rightarrow> u16 \<Rightarrow> one_page_report" where
  "feed_tcp r pkt tcp_src tcp_dst =
     r\<lparr> packet_histogram := time_histogram_insert (packet_histogram r) (ts pkt) tcp_src,
        src_port_histogram := port_histogram_increment (src_port_histogram r) tcp_src (ip_datalen pkt),
        dst_port_histogram := port_histogram_increment (dst_port_histogram r) tcp_dst (ip_datalen pkt) \<rparr>"

text \<open>
  The whole function. After the address trees are fed, \<^verbatim>\<open>ip_ver\<close> is 4 or 6, so the
  \<^verbatim>\<open>default\<close> branch of the \<^verbatim>\<open>switch\<close> is not reached.
\<close>

definition ingest_packet :: "one_page_report \<Rightarrow> packet_info \<Rightarrow> one_page_report" where
  "ingest_packet r pkt =
     (let r3 = ingest_counters r pkt in
      if is_ip4 pkt then
        (let r4 = r3\<lparr> src_tree := iptree_add (src_tree r3) (addr_bytes (ip_data pkt) ip4_src_off 4) (ip_datalen pkt),
                      dst_tree := iptree_add (dst_tree r3) (addr_bytes (ip_data pkt) ip4_dst_off 4) (ip_datalen pkt) \<rparr>
         in if \<not> is_ip4_tcp pkt then r4
            else feed_tcp r4 pkt (get_ip4_tcp_sport pkt) (get_ip4_tcp_dport pkt))
      else if is_ip6 pkt then
        (let r4 = r3\<lparr> src_tree := iptree_add (src_tree r3) (addr_bytes (ip_data pkt) ip6_src_off 16) (ip_datalen pkt),
                      dst_tree := iptree_add (dst_tree r3) (addr_bytes (ip_data pkt) ip6_dst_off 16) (ip_datalen pkt) \<rparr>
         in if \<not> is_ip6_tcp pkt then r4
            else feed_tcp r4 pkt (get_ip6_tcp_sport pkt) (get_ip6_tcp_dport pkt))
      else r3)"

text \<open>Ingesting a sequence of records, first to last.\<close>

definition ingest_all :: "one_page_report \<Rightarrow> packet_info list \<Rightarrow> one_page_report" where
  "ingest_all r pkts = foldl ingest_packet r pkts"

text \<open>Notions the properties below are stated with.\<close>

definition keys_sorted :: "transport_map \<Rightarrow> bool" where
  "keys_sorted m = sorted_wrt (<) (map fst m)"

definition tv_le :: "timeval \<Rightarrow> timeval \<Rightarrow> bool" where
  "tv_le a b = (tv_sec a < tv_sec b \<or> (tv_sec a = tv_sec b \<and> tv_usec a \<le> tv_usec b))"

definition tcp_over_ip :: "packet_info \<Rightarrow> bool" where
  "tcp_over_ip pkt = (if is_ip4 pkt then is_ip4_tcp pkt else is_ip6 pkt \<and> is_ip6_tcp pkt)"

definition src_addr :: "packet_info \<Rightarrow> u8 list" where
  "src_addr pkt = (if is_ip4 pkt then addr_bytes (ip_data pkt) ip4_src_off 4
                   else addr_bytes (ip_data pkt) ip6_src_off 16)"

definition dst_addr :: "packet_info \<Rightarrow> u8 list" where
  "dst_addr pkt = (if is_ip4 pkt then addr_bytes (ip_data pkt) ip4_dst_off 4
                   else addr_bytes (ip_data pkt) ip6_dst_off 16)"

definition tcp_sport :: "packet_info \<Rightarrow> u16" where
  "tcp_sport pkt = (if is_ip4 pkt then get_ip4_tcp_sport pkt else get_ip6_tcp_sport pkt)"

definition tcp_dport :: "packet_info \<Rightarrow> u16" where
  "tcp_dport pkt = (if is_ip4 pkt then get_ip4_tcp_dport pkt else get_ip6_tcp_dport pkt)"

text \<open>A record used in the examples: a non-IP frame (ARP) of 60 captured bytes.\<close>

definition arp_frame :: "int \<Rightarrow> int \<Rightarrow> packet_info" where
  "arp_frame s us =
     \<lparr> ts = \<lparr> tv_sec = s, tv_usec = us \<rparr>, caplen = 60, ether_type = 0x0806,
       is_ip4 = False, is_ip6 = False, is_ip4_tcp = False, is_ip6_tcp = False,
       ip_data = [], ip_datalen = 0,
       get_ip4_tcp_sport = 0, get_ip4_tcp_dport = 0,
       get_ip6_tcp_sport = 0, get_ip6_tcp_dport = 0 \<rparr>"

text \<open>An IPv4 TCP segment from 10.0.0.1:1234 to 10.0.0.2:80 with 40 bytes of IP data.\<close>

definition tcp4_segment :: "int \<Rightarrow> int \<Rightarrow> packet_info" where
  "tcp4_segment s us =
     \<lparr> ts = \<lparr> tv_sec = s, tv_usec = us \<rparr>, caplen = 54, ether_type = 0x0800,
       is_ip4 = True, is_ip6 = False, is_ip4_tcp = True, is_ip6_tcp = False,
       ip_data = [0x45, 0, 0, 40, 0, 0, 0, 0, 64, 6, 0, 0, 10, 0, 0, 1, 10, 0, 0, 2,
                  4, 210, 0, 80, 0, 0, 0, 0, 0, 0, 0, 0, 0x50, 0, 0, 0, 0, 0, 0, 0],
       ip_datalen = 40,
       get_ip4_tcp_sport = 1234, get_ip4_tcp_dport = 80,
       get_ip6_tcp_sport = 0, get_ip6_tcp_dport = 0 \<rparr>"




section \<open>Formatting helpers\<close>

text \<open>\<^verbatim>\<open>build_size_suffixes\<close>.\<close>

definition size_suffixes :: "string list" where
  "size_suffixes = [[], ''K'', ''M'', ''G'', ''T'', ''P'', ''E'']"

text \<open>
  \<^verbatim>\<open>log\<close> of the C library. The results the C standard fixes are written out
  (\<open>log 0 = -\<infinity>\<close>, a negative argument gives NaN); the result on a positive finite
  argument is the parameter \<open>ln_fin\<close>, rounded to a double.
\<close>

fun c_log :: "(rat \<Rightarrow> rat) \<Rightarrow> double \<Rightarrow> double" where
  "c_log ln_fin (Fin q) = (if q = 0 then MInf else if q < 0 then NaN else rnd (ln_fin q))"
| "c_log ln_fin PInf = PInf"
| "c_log ln_fin MInf = NaN"
| "c_log ln_fin NaN = NaN"

text \<open>
  \<^verbatim>\<open>pow(b, (double) n)\<close> of the C library for a natural number \<open>n\<close>: the power,
  rounded. (The call site is \<^verbatim>\<open>pow(1000.0, (double) size_log_1000)\<close> with
  \<open>size_log_1000 \<le> 6\<close>, where the power is a double and the result is exact.)
\<close>

definition c_pow :: "rat \<Rightarrow> nat \<Rightarrow> double" where
  "c_pow b n = rnd (b ^ n)"

text \<open>Decimal digits, as \<^verbatim>\<open>printf\<close> writes a number.\<close>

definition decimal_digit :: "int \<Rightarrow> char" where
  "decimal_digit d = ''0123456789'' ! nat d"

function decimal :: "int \<Rightarrow> string" where
  "decimal n = (if 9 < n then decimal (n div 10) else []) @ [decimal_digit (n mod 10)]"
  by pat_completeness auto
termination
  by (relation "measure nat") auto

declare decimal.simps [simp del]

text \<open>
  The conversion \<^verbatim>\<open>%.2f\<close> of \<^verbatim>\<open>printf\<close>, which \<^verbatim>\<open>ssprintf\<close> (defined outside this
  file) hands its arguments to: the exact value rounded to two decimals, ties to even.
\<close>

fun printf_2f :: "double \<Rightarrow> string" where
  "printf_2f (Fin q) =
     (let n = round_half_even (\<bar>q\<bar> * 100)
      in (if q < 0 then ''-'' else []) @ decimal (n div 100) @ ''.'' @
         [decimal_digit (n mod 100 div 10), decimal_digit (n mod 10)])"
| "printf_2f PInf = ''inf''"
| "printf_2f MInf = ''-inf''"
| "printf_2f NaN = ''nan''"

text \<open>\<^verbatim>\<open>pretty_byte_total\<close>.\<close>

definition pretty_byte_total :: "(rat \<Rightarrow> rat) \<Rightarrow> u64 \<Rightarrow> string" where
  "pretty_byte_total ln_fin bytes =
     (let l = u64_of_double (fdiv (c_log ln_fin (double_of_u64 bytes)) (c_log ln_fin (Fin 1000)));
          size_log_1000 = (if of_nat (length size_suffixes) \<le> l then 0 else l)
      in printf_2f (fdiv (double_of_u64 bytes) (c_pow 1000 (unat size_log_1000)))
         @ '' '' @ size_suffixes ! unat size_log_1000)"

section \<open>The render pass\<close>

definition page_margin_factor :: double where "page_margin_factor = rnd (5 / 100)"
definition line_space_factor :: double where "line_space_factor = Fin (1 / 4)"
definition histogram_pad_factor_y :: double where "histogram_pad_factor_y = Fin 1"
definition address_histogram_width_divisor :: double where
  "address_histogram_width_divisor = Fin (5 / 2)"
definition packet_histogram_height :: double where "packet_histogram_height = Fin 100"
definition address_histogram_height :: double where "address_histogram_height = Fin 125"
definition port_histogram_height :: double where "port_histogram_height = Fin 100"

text \<open>The ethertypes of \<^verbatim>\<open>net/ethernet.h\<close>.\<close>

definition ETHERTYPE_IP :: u32 where "ETHERTYPE_IP = 0x0800"
definition ETHERTYPE_ARP :: u32 where "ETHERTYPE_ARP = 0x0806"
definition ETHERTYPE_IPV6 :: u32 where "ETHERTYPE_IPV6 = 0x86dd"

text \<open>
  What a paired chart reads from a histogram: \<^verbatim>\<open>size()\<close> is the length of
  \<open>entries\<close>, \<^verbatim>\<open>at(ii)\<close> its element \<open>ii\<close> (key and \<^verbatim>\<open>count\<close>), and
  \<^verbatim>\<open>ingest_count()\<close> the total. A view carries its title and its data.
\<close>

record 'k histogram_data =
  entries :: "('k \<times> u64) list"
  ingest_count :: u64

record 'k histogram_view =
  title :: string
  get_data :: "'k histogram_data"

text \<open>
  Modelled from the spec: the ranked-lookup contract of the aggregate stores
  (\<^verbatim>\<open>address_histogram\<close> built from an \<^verbatim>\<open>iptree\<close>, and \<^verbatim>\<open>port_histogram\<close>), whose
  code is outside this file. Weights accumulate per key; the entries are the keys of nonzero
  weight in descending order of weight (ties in first-seen order); the total is the sum of
  all weights ever added.
\<close>

fun accumulate :: "'k \<Rightarrow> nat \<Rightarrow> ('k \<times> nat) list \<Rightarrow> ('k \<times> nat) list" where
  "accumulate k w [] = [(k, w)]"
| "accumulate k w ((k', v) # kvs) =
     (if k = k' then (k', v + w) # kvs else (k', v) # accumulate k w kvs)"

fun insert_ranked :: "'k \<times> nat \<Rightarrow> ('k \<times> nat) list \<Rightarrow> ('k \<times> nat) list" where
  "insert_ranked x [] = [x]"
| "insert_ranked x (y # ys) = (if snd y < snd x then x # y # ys else y # insert_ranked x ys)"

definition ranked_data :: "('k \<times> nat) list \<Rightarrow> 'k histogram_data" where
  "ranked_data calls =
     (let tally = foldl (\<lambda>acc (k, w). accumulate k w acc) [] calls;
          ranking = foldl (\<lambda>acc x. insert_ranked x acc) [] tally
      in \<lparr> entries = map (\<lambda>(k, w). (k, of_nat w)) (filter (\<lambda>(k, w). w \<noteq> 0) ranking),
           ingest_count = of_nat (sum_list (map snd calls)) \<rparr>)"

text \<open>
  A line of text is represented by the arguments the source hands to \<^verbatim>\<open>ssprintf\<close> for it
  (the formatting of dates by \<^verbatim>\<open>localtime\<close>, of the packet count by
  \<^verbatim>\<open>comma_number_string\<close> and of addresses by \<^verbatim>\<open>addr.str()\<close> happens outside
  this file).
\<close>

datatype text_line =
    Title_version
  | Input_line string
  | Generated_line int
  | Date_range_line int int
  | Packets_analyzed_line u64 string
  | Transports_line double double double double
  | Address_stat_line nat "u8 list" string u8
  | Port_stat_line nat u16 string u8

text \<open>
  The calls made on the cairo context and on the chart views, in the order of the calls.
  \<open>Show_text t size x y\<close> is the group of cairo calls of \<^verbatim>\<open>render_text\<close> with the
  position given to \<^verbatim>\<open>cairo_move_to\<close>.
\<close>

datatype draw_op =
    Cairo_translate double double
  | Show_text text_line double double double
  | Time_histogram_render string bounds_t
  | Netmap_render bounds_t
  | Packetfall_render bounds_t
  | Address_histogram_render "u8 list histogram_view" bounds_t
  | Port_histogram_render "u16 histogram_view" bounds_t
  | Cairo_destroy
  | Cairo_surface_destroy

datatype cairo_status = CAIRO_STATUS_SUCCESS | CAIRO_STATUS_WRITE_ERROR

text \<open>
  What a render depends on besides the report: the status of the surface that
  \<^verbatim>\<open>cairo_pdf_surface_create\<close> returns for a file name, the height cairo measures for a
  text at a font size, whether \<^verbatim>\<open>DEBUG\<close> is set in the environment, the clock, the
  C library's \<^verbatim>\<open>log\<close> on positive arguments, and the indeterminate height read from a
  \<^verbatim>\<open>cairo_text_extents_t\<close> that was never written.
\<close>

record render_env =
  surface_create_status :: "string \<Rightarrow> cairo_status"
  text_extents_height :: "text_line \<Rightarrow> double \<Rightarrow> double"
  getenv_DEBUG :: bool
  time_now :: int
  libm_log :: "rat \<Rightarrow> rat"
  uninitialised_height :: double

text \<open>
  \<^verbatim>\<open>render_pass\<close>: the report it refers to (by reference, so its changes are the
  report's), the bounds, the cursor and the calls issued so far.
\<close>

record render_pass =
  report :: one_page_report
  surface_bounds :: bounds_t
  end_of_content :: double
  surface :: "draw_op list"

definition advance :: "render_pass \<Rightarrow> double \<Rightarrow> render_pass" where
  "advance pass d = pass\<lparr> end_of_content := fadd (end_of_content pass) d \<rparr>"

definition render_text ::
  "render_env \<Rightarrow> render_pass \<Rightarrow> text_line \<Rightarrow> double \<Rightarrow> double \<Rightarrow> render_pass \<times> double" where
  "render_text env pass text font_size x_offset =
     (let h = text_extents_height env text font_size
      in (pass\<lparr> surface := surface pass @
                   [Show_text text font_size x_offset (fadd (end_of_content pass) h)] \<rparr>, h))"

definition render_text_line ::
  "render_env \<Rightarrow> render_pass \<Rightarrow> text_line \<Rightarrow> double \<Rightarrow> double \<Rightarrow> render_pass" where
  "render_text_line env pass text font_size line_space =
     (let (pass', h) = render_text env pass text font_size (Fin 0)
      in pass'\<lparr> end_of_content := fadd (end_of_content pass') (fadd h line_space) \<rparr>)"

text \<open>The loop of \<^verbatim>\<open>render_header\<close> over \<^verbatim>\<open>transport_counts\<close>.\<close>

definition transport_total :: "transport_map \<Rightarrow> u64" where
  "transport_total m = foldl (\<lambda>total_count (k, v). total_count + v) 0 m"

text \<open>
  \<^verbatim>\<open>render_header\<close>. The three keys are looked up with \<^verbatim>\<open>operator[]\<close> on the
  report's own map.
\<close>

definition render_header :: "render_env \<Rightarrow> render_pass \<Rightarrow> render_pass" where
  "render_header env pass =
     (let r = report pass;
          title_line_space = fmul (header_font_size r) line_space_factor;
          p1 = render_text_line env pass Title_version (header_font_size r) title_line_space;
          p2 = render_text_line env p1 (Input_line (source_identifier r))
                 (header_font_size r) title_line_space;
          p3 = render_text_line env p2 (Generated_line (time_now env))
                 (header_font_size r) title_line_space;
          p4 = advance p3 (fmul title_line_space (Fin 4));
          p5 = render_text_line env p4
                 (Date_range_line (tv_sec (earliest r)) (tv_sec (latest r)))
                 (header_font_size r) title_line_space;
          p6 = render_text_line env p5
                 (Packets_analyzed_line (packet_count r)
                    (pretty_byte_total (libm_log env) (byte_count r)))
                 (header_font_size r) title_line_space;
          total_count = transport_total (transport_counts r);
          m = map_index ETHERTYPE_ARP
                (map_index ETHERTYPE_IPV6 (map_index ETHERTYPE_IP (transport_counts r)));
          ip4 = map_at m ETHERTYPE_IP;
          ip6 = map_at m ETHERTYPE_IPV6;
          arp = map_at m ETHERTYPE_ARP;
          line = Transports_line
                   (fmul (fdiv (double_of_u64 ip4) (double_of_u64 total_count)) (Fin 100))
                   (fmul (fdiv (double_of_u64 ip6) (double_of_u64 total_count)) (Fin 100))
                   (fmul (fdiv (double_of_u64 arp) (double_of_u64 total_count)) (Fin 100))
                   (fmul (fsub (Fin 1)
                            (fdiv (double_of_u64 (ip4 + ip6 + arp)) (double_of_u64 total_count)))
                         (Fin 100));
          p7 = render_text_line env (p6\<lparr> report := r\<lparr> transport_counts := m \<rparr> \<rparr>) line
                 (header_font_size r) title_line_space
      in advance p7 (fmul title_line_space (Fin 4)))"

text \<open>
  The three full-width charts: \<^verbatim>\<open>render(time_histogram_view &)\<close>,
  \<^verbatim>\<open>render_map\<close> and \<^verbatim>\<open>render_packetfall\<close>.
\<close>

definition full_width_bounds :: "render_pass \<Rightarrow> bounds_t" where
  "full_width_bounds pass =
     \<lparr> b_x = Fin 0, b_y = end_of_content pass, b_width = b_width (surface_bounds pass),
       b_height = packet_histogram_height \<rparr>"

definition render_time_histogram :: "render_pass \<Rightarrow> string \<Rightarrow> render_pass" where
  "render_time_histogram pass view_title =
     (let bnds = full_width_bounds pass
      in advance (pass\<lparr> surface := surface pass @ [Time_histogram_render view_title bnds] \<rparr>)
           (fmul (b_height bnds) histogram_pad_factor_y))"

definition render_map :: "render_pass \<Rightarrow> render_pass" where
  "render_map pass =
     (let bnds = full_width_bounds pass
      in advance (pass\<lparr> surface := surface pass @ [Netmap_render bnds] \<rparr>)
           (fmul (b_height bnds) histogram_pad_factor_y))"

definition render_packetfall :: "render_pass \<Rightarrow> render_pass" where
  "render_packetfall pass =
     (let bnds = full_width_bounds pass
      in advance (pass\<lparr> surface := surface pass @ [Packetfall_render bnds] \<rparr>)
           (fmul (b_height bnds) histogram_pad_factor_y))"

text \<open>
  The two paired renders, \<^verbatim>\<open>render(address_histogram_view &, address_histogram_view &)\<close>
  and \<^verbatim>\<open>render(port_histogram_view &, port_histogram_view &)\<close>, are the same text up to
  the element type, the height constant, the view call and the format of the line; the model
  takes these three as the parameters \<open>chart_height\<close>, \<open>draw\<close> and \<open>stat_line\<close>.
\<close>

text \<open>The percentage of a rank line: \<^verbatim>\<open>(uint8_t) (((double) count / (double) total) * 100.0)\<close>.\<close>

definition stat_percentage :: "u64 \<Rightarrow> u64 \<Rightarrow> u8" where
  "stat_percentage count total_count =
     u8_of_double (fmul (fdiv (double_of_u64 count) (double_of_u64 total_count)) (Fin 100))"

text \<open>The chart part of a paired render (lines 328--340 and 385--399).\<close>

definition pair_bounds :: "render_pass \<Rightarrow> double \<Rightarrow> bounds_t \<times> bounds_t" where
  "pair_bounds pass chart_height =
     (let width = fdiv (b_width (surface_bounds pass)) address_histogram_width_divisor
      in (\<lparr> b_x = Fin 0, b_y = end_of_content pass, b_width = width, b_height = chart_height \<rparr>,
          \<lparr> b_x = fsub (b_width (surface_bounds pass)) width, b_y = end_of_content pass,
            b_width = width, b_height = chart_height \<rparr>))"

definition render_pair_charts ::
  "double \<Rightarrow> ('k histogram_view \<Rightarrow> bounds_t \<Rightarrow> draw_op) \<Rightarrow>
   render_pass \<Rightarrow> 'k histogram_view \<Rightarrow> 'k histogram_view \<Rightarrow> render_pass" where
  "render_pair_charts chart_height draw pass left right =
     (let (left_bounds, right_bounds) = pair_bounds pass chart_height
      in advance (pass\<lparr> surface := surface pass @ [draw left left_bounds, draw right right_bounds] \<rparr>)
           (fmax (b_height left_bounds) (b_height right_bounds)))"

text \<open>Whether a side has a line at rank \<open>ii\<close>: \<^verbatim>\<open>data.size() > ii && data.at(ii).count > 0\<close>.\<close>

definition has_stat :: "'k histogram_data \<Rightarrow> nat \<Rightarrow> bool" where
  "has_stat data ii = (ii < length (entries data) \<and> 0 < snd (entries data ! ii))"

text \<open>One side of one pass through the loop body; the second component is the height left in
  the side's \<^verbatim>\<open>cairo_text_extents_t\<close>.\<close>

definition render_stat ::
  "(nat \<Rightarrow> 'k \<Rightarrow> string \<Rightarrow> u8 \<Rightarrow> text_line) \<Rightarrow> render_env \<Rightarrow>
   'k histogram_data \<Rightarrow> u64 \<Rightarrow> double \<Rightarrow> render_pass \<Rightarrow> nat \<Rightarrow> render_pass \<times> double" where
  "render_stat stat_line env data total_count x_offset pass ii =
     (if has_stat data ii then
        (let (key, count) = entries data ! ii;
             percentage = stat_percentage count total_count;
             str = stat_line (ii + 1) key (pretty_byte_total (libm_log env) count) percentage
         in render_text env pass str (top_list_font_size (report pass)) x_offset)
      else (pass, uninitialised_height env))"

definition render_stat_row ::
  "(nat \<Rightarrow> 'k \<Rightarrow> string \<Rightarrow> u8 \<Rightarrow> text_line) \<Rightarrow> render_env \<Rightarrow>
   'k histogram_data \<Rightarrow> 'k histogram_data \<Rightarrow> u64 \<Rightarrow> bounds_t \<Rightarrow> bounds_t \<Rightarrow>
   render_pass \<Rightarrow> nat \<Rightarrow> render_pass" where
  "render_stat_row stat_line env left_data right_data total_count left_bounds right_bounds pass ii =
     (let (p1, left_height) = render_stat stat_line env left_data total_count (b_x left_bounds) pass ii;
          (p2, right_height) = render_stat stat_line env right_data total_count (b_x right_bounds) p1 ii
      in if has_stat left_data ii \<or> has_stat right_data ii
         then advance p2 (fmul (fmax left_height right_height) (Fin (3 / 2)))
         else p2)"

definition render_pair ::
  "double \<Rightarrow> ('k histogram_view \<Rightarrow> bounds_t \<Rightarrow> draw_op) \<Rightarrow>
   (nat \<Rightarrow> 'k \<Rightarrow> string \<Rightarrow> u8 \<Rightarrow> text_line) \<Rightarrow> render_env \<Rightarrow>
   render_pass \<Rightarrow> 'k histogram_view \<Rightarrow> 'k histogram_view \<Rightarrow> render_pass" where
  "render_pair chart_height draw stat_line env pass left right =
     (let left_data = get_data left;
          right_data = get_data right;
          total_count = ingest_count left_data;
          (left_bounds, right_bounds) = pair_bounds pass chart_height;
          p1 = render_pair_charts chart_height draw pass left right;
          p2 = foldl (render_stat_row stat_line env left_data right_data total_count
                        left_bounds right_bounds)
                 p1 [0 ..< histogram_show_top_n_text (report p1)]
      in advance p2 (fmul (fmax (b_height left_bounds) (b_height right_bounds))
                          (fsub histogram_pad_factor_y (Fin 1))))"

definition render_address_pair ::
  "render_env \<Rightarrow> render_pass \<Rightarrow> u8 list histogram_view \<Rightarrow> u8 list histogram_view \<Rightarrow> render_pass" where
  "render_address_pair = render_pair address_histogram_height Address_histogram_render Address_stat_line"

definition render_port_pair ::
  "render_env \<Rightarrow> render_pass \<Rightarrow> u16 histogram_view \<Rightarrow> u16 histogram_view \<Rightarrow> render_pass" where
  "render_port_pair = render_pair port_histogram_height Port_histogram_render Port_stat_line"

section \<open>render\<close>

text \<open>
  The padded bounds of \<^verbatim>\<open>render\<close> and the pass it starts. (The constructor of
  \<^verbatim>\<open>render_pass\<close> is outside this file; the cursor starts at 0, the origin after
  \<^verbatim>\<open>cairo_translate\<close>.)
\<close>

definition pad_bounds :: "one_page_report \<Rightarrow> bounds_t" where
  "pad_bounds r =
     (let pad_size = fmul (b_width (bounds r)) page_margin_factor
      in \<lparr> b_x = fadd (b_x (bounds r)) pad_size, b_y = fadd (b_y (bounds r)) pad_size,
           b_width = fsub (b_width (bounds r)) (fmul pad_size (Fin 2)),
           b_height = fsub (b_height (bounds r)) (fmul pad_size (Fin 2)) \<rparr>)"

text \<open>Lines 139--198: everything between creating and destroying the context.\<close>

definition render_sections :: "render_env \<Rightarrow> one_page_report \<Rightarrow> render_pass" where
  "render_sections env r =
     (let pass = \<lparr> report = r, surface_bounds = pad_bounds r, end_of_content = Fin 0,
                   surface = [Cairo_translate (b_x (pad_bounds r)) (b_y (pad_bounds r))] \<rparr>;
          p1 = render_header env pass;
          p2 = render_time_histogram p1 ''TCP Packets Received'';
          p3 = (if getenv_DEBUG env then render_packetfall (render_map p2) else p2);
          src_addr_histogram = ranked_data (src_tree (report p3));
          dst_addr_histogram = ranked_data (dst_tree (report p3));
          src_ah_view = \<lparr> title = (if 0 < length (entries src_addr_histogram)
                                    then ''Top Source Addresses'' else ''No Source Addresses''),
                          get_data = src_addr_histogram \<rparr>;
          dst_ah_view = \<lparr> title = (if 0 < length (entries dst_addr_histogram)
                                    then ''Top Destination Addresses''
                                    else ''No Destination Addresses''),
                          get_data = dst_addr_histogram \<rparr>;
          p4 = render_address_pair env p3 src_ah_view dst_ah_view;
          src_ports = ranked_data (src_port_histogram (report p4));
          dst_ports = ranked_data (dst_port_histogram (report p4));
          sp_view = \<lparr> title = (if length (entries src_ports) \<noteq> 0
                                then ''Top Source Ports'' else ''No Source Ports''),
                      get_data = src_ports \<rparr>;
          dp_view = \<lparr> title = (if length (entries dst_ports) \<noteq> 0
                                then ''Top Destination Ports'' else ''No Destination Ports''),
                      get_data = dst_ports \<rparr>
      in render_port_pair env p4 sp_view dp_view)"

text \<open>
  \<^verbatim>\<open>render\<close> returns \<^verbatim>\<open>void\<close>; it contains no \<^verbatim>\<open>throw\<close>, no early
  \<^verbatim>\<open>return\<close> and no test of the surface's status, so its model has no branch that
  returns an error. The result holds the report after the call, the calls issued and the status
  of the surface they were issued on.
\<close>

datatype render_error = IO_error

record render_result =
  final_report :: one_page_report
  calls :: "draw_op list"
  surface_status :: cairo_status

definition render :: "render_env \<Rightarrow> string \<Rightarrow> one_page_report \<Rightarrow> render_error + render_result" where
  "render env outdir r =
     (let fname = outdir @ ''/'' @ filename r;
          status = surface_create_status env fname;
          pass = render_sections env r
      in Inr \<lparr> final_report = report pass,
               calls = surface pass @ [Cairo_destroy, Cairo_surface_destroy],
               surface_status = status \<rparr>)"

text \<open>
  An environment for the examples: surface creation fails for paths under
  \<^verbatim>\<open>/nonexistent\<close>, every text is as high as its font size, and \<open>libm_log\<close> holds the
  doubles nearest to the logarithms of the arguments that occur in the examples.
\<close>

definition ln_samples :: "rat \<Rightarrow> rat" where
  "ln_samples q =
     (if q = 1000 then 243045032034301 / 35184372088832
      else if q = 1500 then 8233954152544549 / 1125899906842624
      else if q = 2500000 then 1036658356240821 / 70368744177664
      else if q = 90 then 316645955539649 / 70368744177664
      else if q = 80 then 1233430844940305 / 281474976710656
      else if q = 54 then 2245598383211715 / 562949953421312
      else if q = 50 then 8809092674755503 / 2251799813685248
      else if q = 45 then 2142960471306857 / 562949953421312
      else if q = 40 then 8306618067481101 / 2251799813685248
      else if q = 30 then 7658815630333595 / 2251799813685248
      else if q = 10 then 2592480341699211 / 1125899906842624
      else 0)"

definition example_env :: render_env where
  "example_env =
     \<lparr> surface_create_status =
         (\<lambda>fname. if take 12 fname = ''/nonexistent'' then CAIRO_STATUS_WRITE_ERROR
                   else CAIRO_STATUS_SUCCESS),
       text_extents_height = (\<lambda>text font_size. font_size),
       getenv_DEBUG = False, time_now = 0, libm_log = ln_samples,
       uninitialised_height = Fin 0 \<rparr>"

text \<open>The same environment, except that creating the surface succeeds for every path.\<close>

definition working_env :: render_env where
  "working_env = example_env\<lparr> surface_create_status := (\<lambda>fname. CAIRO_STATUS_SUCCESS) \<rparr>"

text \<open>Notions the properties of the render pass are stated with: the text lines among the
  calls, and the line a side contributes at rank \<open>ii\<close> given the total used.\<close>

fun text_lines :: "draw_op list \<Rightarrow> text_line list" where
  "text_lines [] = []"
| "text_lines (Show_text t font_size x_offset y_offset # ops) = t # text_lines ops"
| "text_lines (_ # ops) = text_lines ops"

fun is_show_text :: "draw_op \<Rightarrow> bool" where
  "is_show_text (Show_text t font_size x_offset y_offset) = True"
| "is_show_text _ = False"

definition side_line ::
  "(nat \<Rightarrow> 'k \<Rightarrow> string \<Rightarrow> u8 \<Rightarrow> text_line) \<Rightarrow> render_env \<Rightarrow>
   'k histogram_data \<Rightarrow> u64 \<Rightarrow> nat \<Rightarrow> text_line list" where
  "side_line stat_line env data total_count ii =
     (if has_stat data ii
      then [stat_line (ii + 1) (fst (entries data ! ii))
              (pretty_byte_total (libm_log env) (snd (entries data ! ii)))
              (stat_percentage (snd (entries data ! ii)) total_count)]
      else [])"

text \<open>The port stores of the example capture, and a pass whose cursor is below the header.\<close>

definition example_left_ports :: "u16 histogram_view" where
  "example_left_ports =
     \<lparr> title = ''Top Source Ports'',
       get_data = \<lparr> entries = [(80, 50), (22, 30), (8080, 10)], ingest_count = 90 \<rparr> \<rparr>"

definition example_right_ports :: "u16 histogram_view" where
  "example_right_ports =
     \<lparr> title = ''Top Destination Ports'',
       get_data = \<lparr> entries = [(443, 80), (25, 10)], ingest_count = 90 \<rparr> \<rparr>"

definition example_pass :: render_pass where
  "example_pass =
     \<lparr> report = new_report, surface_bounds = pad_bounds new_report, end_of_content = Fin 76,
       surface = [] \<rparr>"
section \<open>Properties of ingest\_packet\<close>

lemma ingest_packet_latest:
  "latest (ingest_packet r pkt) =
     (if tv_sec (ts pkt) > tv_sec (latest r) \<and> tv_usec (ts pkt) > tv_usec (latest r)
      then ts pkt else latest r)"
  by (simp add: ingest_packet_def ingest_counters_def feed_tcp_def Let_def)

text \<open>
  Claim C1. \<^verbatim>\<open>ingest_packet\<close> sets \<open>latest\<close> to the record's timestamp exactly when the
  record's seconds and its microseconds are both strictly greater than those of the current
  \<open>latest\<close>, and leaves it alone otherwise. In particular, after any first record, a second
  record whose seconds equal \<open>latest.tv_sec\<close> and whose microseconds are below
  \<open>latest.tv_usec\<close> leaves \<open>latest\<close> unchanged.
\<close>

theorem C1_latest_literal_comparison:
  "latest (ingest_packet r pkt) =
     (if tv_sec (ts pkt) > tv_sec (latest r) \<and> tv_usec (ts pkt) > tv_usec (latest r)
      then ts pkt else latest r)
   \<and> (tv_sec (ts p2) = tv_sec (latest (ingest_packet r p1)) \<and>
      tv_usec (ts p2) < tv_usec (latest (ingest_packet r p1)) \<longrightarrow>
      latest (ingest_packet (ingest_packet r p1) p2) = latest (ingest_packet r p1))"
  by (simp add: ingest_packet_latest)

theorem C1_latest_literal_comparison_witness:
  "latest (ingest_packet new_report (arp_frame 100 500)) = \<lparr> tv_sec = 100, tv_usec = 500 \<rparr>
   \<and> tv_sec (ts (arp_frame 100 200)) = tv_sec (latest (ingest_packet new_report (arp_frame 100 500)))
   \<and> tv_usec (ts (arp_frame 100 200)) < tv_usec (latest (ingest_packet new_report (arp_frame 100 500)))
   \<and> latest (ingest_packet (ingest_packet new_report (arp_frame 100 500)) (arp_frame 100 200))
       = \<lparr> tv_sec = 100, tv_usec = 500 \<rparr>"
  using C1_latest_literal_comparison
    [where r = new_report and pkt = "arp_frame 100 500"
       and ?p1.0 = "arp_frame 100 500" and ?p2.0 = "arp_frame 100 200"]
  by (simp add: new_report_def arp_frame_def)


lemma map_at_absent: "k \<notin> fst ` set m \<Longrightarrow> map_at m k = 0"
  by (induction m) auto

lemma map_at_map_index: "keys_sorted m \<Longrightarrow> map_at (map_index k m) k' = map_at m k'"
proof (induction m)
  case Nil
  then show ?case by simp
next
  case (Cons a m)
  obtain k0 v0 where a: "a = (k0, v0)" by (cases a)
  have "k < k0 \<Longrightarrow> k \<notin> fst ` set m"
    using Cons.prems by (auto simp: keys_sorted_def a)
  then have "k < k0 \<Longrightarrow> map_at m k = 0"
    by (rule map_at_absent)
  moreover have "keys_sorted m"
    using Cons.prems by (simp add: keys_sorted_def)
  ultimately show ?case
    using Cons.IH by (auto simp: a)
qed

lemma set_map_index: "fst ` set (map_index k m) = insert k (fst ` set m)"
  by (induction k m rule: map_index.induct) (simp_all add: insert_commute)

lemma keys_sorted_map_index: "keys_sorted m \<Longrightarrow> keys_sorted (map_index k m)"
proof (induction m)
  case Nil
  then show ?case by (simp add: keys_sorted_def)
next
  case (Cons a m)
  obtain k0 v0 where a: "a = (k0, v0)" by (cases a)
  have m: "keys_sorted m" and lt: "\<forall>x \<in> fst ` set m. k0 < x"
    using Cons.prems by (auto simp: keys_sorted_def a)
  have "\<forall>x \<in> fst ` set (map_index k m). k0 < x" if "k0 < k"
    using lt that by (simp add: set_map_index)
  then show ?case
    using Cons.IH [OF m] Cons.prems
    by (auto simp: a keys_sorted_def not_less)
qed

lemma map_fst_map_store: "map fst (map_store k w m) = map fst m"
  by (induction m) auto

lemma keys_sorted_map_store: "keys_sorted m \<Longrightarrow> keys_sorted (map_store k w m)"
  by (simp add: keys_sorted_def map_fst_map_store)

lemma map_at_map_store_other: "k' \<noteq> k \<Longrightarrow> map_at (map_store k w m) k' = map_at m k'"
  by (induction k w m rule: map_store.induct) auto

lemma map_at_map_store_same: "k \<in> fst ` set m \<Longrightarrow> map_at (map_store k w m) k = w"
  by (induction k w m rule: map_store.induct) auto

lemma map_at_map_incr:
  "keys_sorted m \<Longrightarrow> map_at (map_incr k m) k' = (if k' = k then map_at m k + 1 else map_at m k')"
  by (simp add: map_incr_def Let_def map_at_map_store_other map_at_map_store_same
        set_map_index map_at_map_index)

lemma keys_sorted_map_incr: "keys_sorted m \<Longrightarrow> keys_sorted (map_incr k m)"
  by (simp add: map_incr_def Let_def keys_sorted_map_store keys_sorted_map_index)

lemma ingest_packet_counters:
  "packet_count (ingest_packet r pkt) = packet_count r + 1"
  "byte_count (ingest_packet r pkt) = byte_count r + ucast (caplen pkt)"
  "transport_counts (ingest_packet r pkt) = map_incr (ucast (ether_type pkt)) (transport_counts r)"
  by (simp_all add: ingest_packet_def ingest_counters_def feed_tcp_def Let_def)

lemma ingest_all_snoc: "ingest_all r (pkts @ [pkt]) = ingest_packet (ingest_all r pkts) pkt"
  by (simp add: ingest_all_def)

lemma ingest_all_keys_sorted:
  "keys_sorted (transport_counts r) \<Longrightarrow> keys_sorted (transport_counts (ingest_all r pkts))"
  by (induction pkts rule: rev_induct)
     (simp_all add: ingest_all_snoc ingest_packet_counters keys_sorted_map_incr, simp add: ingest_all_def)

lemma ingest_all_packet_count:
  "packet_count (ingest_all r pkts) = packet_count r + of_nat (length pkts)"
  by (induction pkts rule: rev_induct)
     (simp_all add: ingest_all_snoc ingest_packet_counters, simp add: ingest_all_def)

lemma ingest_all_byte_count:
  "byte_count (ingest_all r pkts) = byte_count r + of_nat (\<Sum>pkt\<leftarrow>pkts. unat (caplen pkt))"
  by (induction pkts rule: rev_induct)
     (simp_all add: ingest_all_snoc ingest_packet_counters, simp add: ingest_all_def)

lemma ingest_all_transport_counts:
  "keys_sorted (transport_counts r) \<Longrightarrow>
   map_at (transport_counts (ingest_all r pkts)) e =
     map_at (transport_counts r) e + of_nat (length (filter (\<lambda>pkt. ucast (ether_type pkt) = e) pkts))"
proof (induction pkts rule: rev_induct)
  case Nil
  then show ?case by (simp add: ingest_all_def)
next
  case (snoc pkt pkts)
  then show ?case
    by (cases "ucast (ether_type pkt) = e")
       (simp_all add: ingest_all_snoc ingest_packet_counters map_at_map_incr ingest_all_keys_sorted)
qed


lemma keys_sorted_new_report: "keys_sorted (transport_counts new_report)"
  by (simp add: new_report_def keys_sorted_def)

text \<open>
  Claim C2. The claim: after at least one record has been ingested, \<open>earliest \<le> latest\<close>
  in the lexicographic order of (seconds, microseconds), and the two counters never decrease.
  The code does not keep the first part: a first record whose timestamp has a microsecond
  field of 0 (here 1000 s, 0 us) becomes \<open>earliest\<close>, but fails the test
  \<^verbatim>\<open>pi.ts.tv_usec > latest.tv_usec\<close>, so that \<open>latest\<close> stays at (0, 0) and
  \<open>earliest\<close> is later than \<open>latest\<close>.
\<close>

theorem C2_earliest_after_latest:
  "earliest (ingest_all new_report [tcp4_segment 1000 0]) = \<lparr> tv_sec = 1000, tv_usec = 0 \<rparr>
   \<and> latest (ingest_all new_report [tcp4_segment 1000 0]) = \<lparr> tv_sec = 0, tv_usec = 0 \<rparr>
   \<and> \<not> tv_le (earliest (ingest_all new_report [tcp4_segment 1000 0]))
              (latest (ingest_all new_report [tcp4_segment 1000 0]))"
  by (simp add: ingest_all_def ingest_packet_def ingest_counters_def feed_tcp_def Let_def
        new_report_def tcp4_segment_def tv_le_def)

text \<open>
  The two counters themselves do not decrease, as long as the 64-bit values do not wrap
  around.
\<close>

lemma counters_do_not_decrease_without_wrap:
  "unat (packet_count r) + 1 < 2 ^ 64 \<Longrightarrow> packet_count r < packet_count (ingest_packet r pkt)"
  "unat (byte_count r) + unat (caplen pkt) < 2 ^ 64 \<Longrightarrow>
     byte_count r \<le> byte_count (ingest_packet r pkt)"
proof -
  assume "unat (packet_count r) + 1 < 2 ^ 64"
  then have "unat (packet_count r + 1) = unat (packet_count r) + 1"
    by (simp add: unat_word_ariths)
  then show "packet_count r < packet_count (ingest_packet r pkt)"
    by (simp add: ingest_packet_counters word_less_nat_alt)
next
  assume a: "unat (byte_count r) + unat (caplen pkt) < 2 ^ 64"
  have "unat (caplen pkt) < 2 ^ 32"
    using unsigned_less [of "caplen pkt", where ?'a = nat] by simp
  then have "unat (caplen pkt) < 2 ^ 64"
    by simp
  then have "unat (ucast (caplen pkt) :: u64) = unat (caplen pkt)"
    by (simp add: unsigned_ucast_eq take_bit_nat_eq_self)
  with a have "unat (byte_count r + ucast (caplen pkt)) = unat (byte_count r) + unat (caplen pkt)"
    by (simp add: unat_word_ariths)
  then show "byte_count r \<le> byte_count (ingest_packet r pkt)"
    by (simp add: ingest_packet_counters word_le_nat_alt)
qed

text \<open>
  Claim C4. Every call of \<^verbatim>\<open>ingest_packet\<close>, whatever the record is, adds one to
  \<open>packet_count\<close>, the capture length to \<open>byte_count\<close> and one to
  \<open>transport_counts[ethertype]\<close>. Hence after ingesting a sequence of \<open>N\<close> records into a
  new report, \<open>packet_count\<close> is \<open>N\<close>, \<open>byte_count\<close> is the sum of the capture
  lengths and \<open>transport_counts[e]\<close> is the number of records of ethertype \<open>e\<close>,
  as 64-bit values; read as numbers they are these numbers as long as these fit in 64 bits.
\<close>

theorem C4_counters_track_every_record:
  "packet_count (ingest_packet r pkt) = packet_count r + 1
   \<and> byte_count (ingest_packet r pkt) = byte_count r + ucast (caplen pkt)
   \<and> transport_counts (ingest_packet r pkt) = map_incr (ucast (ether_type pkt)) (transport_counts r)
   \<and> packet_count (ingest_all new_report pkts) = of_nat (length pkts)
   \<and> byte_count (ingest_all new_report pkts) = of_nat (\<Sum>pkt\<leftarrow>pkts. unat (caplen pkt))
   \<and> map_at (transport_counts (ingest_all new_report pkts)) e
       = of_nat (length (filter (\<lambda>pkt. ucast (ether_type pkt) = e) pkts))
   \<and> (length pkts < 2 ^ 64 \<longrightarrow>
        unat (packet_count (ingest_all new_report pkts)) = length pkts
        \<and> unat (map_at (transport_counts (ingest_all new_report pkts)) e)
            = length (filter (\<lambda>pkt. ucast (ether_type pkt) = e) pkts))
   \<and> ((\<Sum>pkt\<leftarrow>pkts. unat (caplen pkt)) < 2 ^ 64 \<longrightarrow>
        unat (byte_count (ingest_all new_report pkts)) = (\<Sum>pkt\<leftarrow>pkts. unat (caplen pkt)))"
proof -
  let ?n = "length (filter (\<lambda>pkt. ucast (ether_type pkt) = e) pkts)"
  have pc: "packet_count (ingest_all new_report pkts) = of_nat (length pkts)"
    by (simp add: ingest_all_packet_count new_report_def)
  have bc: "byte_count (ingest_all new_report pkts) = of_nat (\<Sum>pkt\<leftarrow>pkts. unat (caplen pkt))"
    by (simp add: ingest_all_byte_count new_report_def)
  have tc: "map_at (transport_counts (ingest_all new_report pkts)) e = of_nat ?n"
    using ingest_all_transport_counts [OF keys_sorted_new_report, of pkts e]
    by (simp add: new_report_def)
  have le: "?n \<le> length pkts"
    by simp
  have u1: "unat (of_nat (length pkts) :: u64) = length pkts" if "length pkts < 2 ^ 64"
    using that by (simp add: unat_of_nat)
  have u2: "unat (of_nat ?n :: u64) = ?n" if "length pkts < 2 ^ 64"
  proof -
    have "?n < 2 ^ 64"
      using that le by (rule le_less_trans [rotated])
    then show ?thesis
      by (simp add: unat_of_nat)
  qed
  have u3: "unat (of_nat (\<Sum>pkt\<leftarrow>pkts. unat (caplen pkt)) :: u64) = (\<Sum>pkt\<leftarrow>pkts. unat (caplen pkt))"
    if "(\<Sum>pkt\<leftarrow>pkts. unat (caplen pkt)) < 2 ^ 64"
    using that by (simp add: unat_of_nat)
  show ?thesis
    using pc bc tc u1 u2 u3 by (simp add: ingest_packet_counters)
qed

theorem C4_counters_track_every_record_witness:
  "length [arp_frame 1 1, tcp4_segment 2 2] < 2 ^ 64
   \<and> (\<Sum>pkt\<leftarrow>[arp_frame 1 1, tcp4_segment 2 2]. unat (caplen pkt)) < 2 ^ 64
   \<and> unat (packet_count (ingest_all new_report [arp_frame 1 1, tcp4_segment 2 2])) = 2
   \<and> unat (byte_count (ingest_all new_report [arp_frame 1 1, tcp4_segment 2 2])) = 114
   \<and> unat (map_at (transport_counts (ingest_all new_report [arp_frame 1 1, tcp4_segment 2 2])) 0x0806) = 1"
  using C4_counters_track_every_record
    [where pkts = "[arp_frame 1 1, tcp4_segment 2 2]" and e = "0x0806"]
  by (simp add: arp_frame_def tcp4_segment_def)

text \<open>
  Claim C5, as amended. A record that is neither IPv4 nor IPv6 changes the counters,
  \<open>transport_counts\<close> and the time range: \<open>earliest\<close> becomes the record's timestamp
  when its seconds field is still 0, and \<open>latest\<close> becomes the record's timestamp when
  both of its fields are greater (these two steps run for every record, before the test
  for IP). Nothing else changes: the address stores, the port histograms and the time
  histogram stay as they are. An IPv4 or IPv6 record feeds the source and the destination
  address store with its address bytes and payload length, whatever the upper-layer
  protocol. The two port histograms and the time histogram are fed if and only if the record
  is TCP over IP.
\<close>

theorem C5_feeding_by_protocol:
  "(\<not> is_ip4 pkt \<and> \<not> is_ip6 pkt \<longrightarrow>
      ingest_packet r pkt =
        r\<lparr> earliest := (if tv_sec (earliest r) = 0 then ts pkt else earliest r),
           latest := (if tv_sec (latest r) < tv_sec (ts pkt) \<and> tv_usec (latest r) < tv_usec (ts pkt)
                      then ts pkt else latest r),
           packet_count := packet_count r + 1,
           byte_count := byte_count r + ucast (caplen pkt),
           transport_counts := map_incr (ucast (ether_type pkt)) (transport_counts r) \<rparr>
      \<and> src_tree (ingest_packet r pkt) = src_tree r
      \<and> dst_tree (ingest_packet r pkt) = dst_tree r
      \<and> src_port_histogram (ingest_packet r pkt) = src_port_histogram r
      \<and> dst_port_histogram (ingest_packet r pkt) = dst_port_histogram r
      \<and> packet_histogram (ingest_packet r pkt) = packet_histogram r)
   \<and> (is_ip4 pkt \<or> is_ip6 pkt \<longrightarrow>
      src_tree (ingest_packet r pkt) = src_tree r @ [(src_addr pkt, ip_datalen pkt)]
      \<and> dst_tree (ingest_packet r pkt) = dst_tree r @ [(dst_addr pkt, ip_datalen pkt)])
   \<and> (tcp_over_ip pkt \<longrightarrow>
      packet_histogram (ingest_packet r pkt) = packet_histogram r @ [(ts pkt, tcp_sport pkt)]
      \<and> src_port_histogram (ingest_packet r pkt)
          = src_port_histogram r @ [(tcp_sport pkt, ip_datalen pkt)]
      \<and> dst_port_histogram (ingest_packet r pkt)
          = dst_port_histogram r @ [(tcp_dport pkt, ip_datalen pkt)])
   \<and> (\<not> tcp_over_ip pkt \<longrightarrow>
      packet_histogram (ingest_packet r pkt) = packet_histogram r
      \<and> src_port_histogram (ingest_packet r pkt) = src_port_histogram r
      \<and> dst_port_histogram (ingest_packet r pkt) = dst_port_histogram r)"
  by (simp add: ingest_packet_def ingest_counters_def feed_tcp_def Let_def tcp_over_ip_def
        src_addr_def dst_addr_def tcp_sport_def tcp_dport_def iptree_add_def
        port_histogram_increment_def time_histogram_insert_def)

text \<open>An ARP frame and a TCP segment, each ingested into a new report.\<close>

theorem C5_feeding_by_protocol_witness:
  "\<not> is_ip4 (arp_frame 1 1) \<and> \<not> is_ip6 (arp_frame 1 1) \<and> \<not> tcp_over_ip (arp_frame 1 1)
   \<and> ingest_packet new_report (arp_frame 1 1)
       = new_report\<lparr> earliest := \<lparr> tv_sec = 1, tv_usec = 1 \<rparr>,
                      latest := \<lparr> tv_sec = 1, tv_usec = 1 \<rparr>,
                      packet_count := 1, byte_count := 60, transport_counts := [(0x0806, 1)] \<rparr>
   \<and> src_tree (ingest_packet new_report (arp_frame 1 1)) = []
   \<and> dst_tree (ingest_packet new_report (arp_frame 1 1)) = []
   \<and> src_port_histogram (ingest_packet new_report (arp_frame 1 1)) = []
   \<and> dst_port_histogram (ingest_packet new_report (arp_frame 1 1)) = []
   \<and> packet_histogram (ingest_packet new_report (arp_frame 1 1)) = []
   \<and> is_ip4 (tcp4_segment 2 2) \<and> tcp_over_ip (tcp4_segment 2 2)
   \<and> src_tree (ingest_packet new_report (tcp4_segment 2 2)) = [([10, 0, 0, 1], 40)]
   \<and> dst_tree (ingest_packet new_report (tcp4_segment 2 2)) = [([10, 0, 0, 2], 40)]
   \<and> packet_histogram (ingest_packet new_report (tcp4_segment 2 2))
       = [(\<lparr> tv_sec = 2, tv_usec = 2 \<rparr>, 1234)]
   \<and> src_port_histogram (ingest_packet new_report (tcp4_segment 2 2)) = [(1234, 40)]
   \<and> dst_port_histogram (ingest_packet new_report (tcp4_segment 2 2)) = [(80, 40)]"
  using C5_feeding_by_protocol [where r = new_report and pkt = "arp_frame 1 1"]
        C5_feeding_by_protocol [where r = new_report and pkt = "tcp4_segment 2 2"]
  by (simp add: new_report_def arp_frame_def tcp4_segment_def tcp_over_ip_def
        src_addr_def dst_addr_def tcp_sport_def tcp_dport_def addr_bytes_def
        ip4_src_off_def ip4_dst_off_def map_incr_def Let_def)

text \<open>
  The claim as first stated, that a record that is neither IPv4 nor IPv6 changes only the
  counters and \<open>transport_counts\<close>, fails on a new report: an ARP frame stamped
  \<open>(100, 500)\<close> also sets \<open>earliest\<close> and \<open>latest\<close>.
\<close>

theorem C5_non_ip_sets_time_range_counterexample:
  "\<not> is_ip4 (arp_frame 100 500) \<and> \<not> is_ip6 (arp_frame 100 500)
   \<and> earliest new_report = \<lparr> tv_sec = 0, tv_usec = 0 \<rparr>
   \<and> earliest (ingest_packet new_report (arp_frame 100 500)) = \<lparr> tv_sec = 100, tv_usec = 500 \<rparr>
   \<and> latest new_report = \<lparr> tv_sec = 0, tv_usec = 0 \<rparr>
   \<and> latest (ingest_packet new_report (arp_frame 100 500)) = \<lparr> tv_sec = 100, tv_usec = 500 \<rparr>
   \<and> ingest_packet new_report (arp_frame 100 500)
       \<noteq> new_report\<lparr> packet_count := packet_count new_report + 1,
                      byte_count := byte_count new_report + ucast (caplen (arp_frame 100 500)),
                      transport_counts := map_incr (ucast (ether_type (arp_frame 100 500)))
                                            (transport_counts new_report) \<rparr>"
proof -
  have e: "earliest (ingest_packet new_report (arp_frame 100 500))
             = \<lparr> tv_sec = 100, tv_usec = 500 \<rparr>"
    by (simp add: ingest_packet_def ingest_counters_def Let_def new_report_def arp_frame_def)
  have l: "latest (ingest_packet new_report (arp_frame 100 500))
             = \<lparr> tv_sec = 100, tv_usec = 500 \<rparr>"
    by (simp add: ingest_packet_def ingest_counters_def Let_def new_report_def arp_frame_def)
  have n: "earliest new_report = \<lparr> tv_sec = 0, tv_usec = 0 \<rparr>"
    "latest new_report = \<lparr> tv_sec = 0, tv_usec = 0 \<rparr>"
    by (simp_all add: new_report_def)
  have "earliest (ingest_packet new_report (arp_frame 100 500))
          \<noteq> earliest (new_report\<lparr> packet_count := packet_count new_report + 1,
                      byte_count := byte_count new_report + ucast (caplen (arp_frame 100 500)),
                      transport_counts := map_incr (ucast (ether_type (arp_frame 100 500)))
                                            (transport_counts new_report) \<rparr>)"
    unfolding e by (simp add: n)
  then have "ingest_packet new_report (arp_frame 100 500)
       \<noteq> new_report\<lparr> packet_count := packet_count new_report + 1,
                      byte_count := byte_count new_report + ucast (caplen (arp_frame 100 500)),
                      transport_counts := map_incr (ucast (ether_type (arp_frame 100 500)))
                                            (transport_counts new_report) \<rparr>"
    by metis
  then show ?thesis
    using e l n by (simp add: arp_frame_def)
qed


section \<open>Properties of the render pass\<close>

lemma text_lines_append: "text_lines (xs @ ys) = text_lines xs @ text_lines ys"
  by (induction xs rule: text_lines.induct) simp_all

lemma advance_simps [simp]:
  "report (advance pass d) = report pass"
  "surface (advance pass d) = surface pass"
  "surface_bounds (advance pass d) = surface_bounds pass"
  "end_of_content (advance pass d) = fadd (end_of_content pass) d"
  by (simp_all add: advance_def)

lemma render_text_simps [simp]:
  "report (fst (render_text env pass text font_size x_offset)) = report pass"
  "surface_bounds (fst (render_text env pass text font_size x_offset)) = surface_bounds pass"
  "end_of_content (fst (render_text env pass text font_size x_offset)) = end_of_content pass"
  "surface (fst (render_text env pass text font_size x_offset))
     = surface pass @ [Show_text text font_size x_offset
                         (fadd (end_of_content pass) (text_extents_height env text font_size))]"
  by (simp_all add: render_text_def Let_def)

lemma render_text_line_simps [simp]:
  "report (render_text_line env pass text font_size line_space) = report pass"
  "surface_bounds (render_text_line env pass text font_size line_space) = surface_bounds pass"
  by (simp_all add: render_text_line_def render_text_def Let_def)

lemma render_stat_simps [simp]:
  "report (fst (render_stat stat_line env data total_count x_offset pass ii)) = report pass"
  "surface_bounds (fst (render_stat stat_line env data total_count x_offset pass ii))
     = surface_bounds pass"
  by (simp_all add: render_stat_def Let_def case_prod_beta)

lemma render_stat_surface:
  "\<exists>ops. surface (fst (render_stat stat_line env data total_count x_offset pass ii))
           = surface pass @ ops
         \<and> list_all is_show_text ops
         \<and> text_lines ops = side_line stat_line env data total_count ii"
  by (simp add: render_stat_def side_line_def Let_def case_prod_beta)

lemma render_stat_row_simps [simp]:
  "report (render_stat_row stat_line env left_data right_data total_count lb rb pass ii)
     = report pass"
  "surface_bounds (render_stat_row stat_line env left_data right_data total_count lb rb pass ii)
     = surface_bounds pass"
  by (simp_all add: render_stat_row_def Let_def case_prod_beta)

lemma render_stat_row_surface:
  "\<exists>ops. surface (render_stat_row stat_line env left_data right_data total_count lb rb pass ii)
           = surface pass @ ops
         \<and> list_all is_show_text ops
         \<and> text_lines ops = side_line stat_line env left_data total_count ii
                             @ side_line stat_line env right_data total_count ii"
proof -
  obtain p1 hl where p1: "render_stat stat_line env left_data total_count (b_x lb) pass ii = (p1, hl)"
    by (cases "render_stat stat_line env left_data total_count (b_x lb) pass ii")
  obtain p2 hr where p2: "render_stat stat_line env right_data total_count (b_x rb) p1 ii = (p2, hr)"
    by (cases "render_stat stat_line env right_data total_count (b_x rb) p1 ii")
  obtain ops1 where o1: "surface p1 = surface pass @ ops1" "list_all is_show_text ops1"
      "text_lines ops1 = side_line stat_line env left_data total_count ii"
    using render_stat_surface [of stat_line env left_data total_count "b_x lb" pass ii] p1
    by auto
  obtain ops2 where o2: "surface p2 = surface p1 @ ops2" "list_all is_show_text ops2"
      "text_lines ops2 = side_line stat_line env right_data total_count ii"
    using render_stat_surface [of stat_line env right_data total_count "b_x rb" p1 ii] p2
    by auto
  have "surface (render_stat_row stat_line env left_data right_data total_count lb rb pass ii)
          = surface p2"
    by (simp add: render_stat_row_def p1 p2)
  then show ?thesis
    using o1 o2 by (intro exI [of _ "ops1 @ ops2"]) (simp add: text_lines_append)
qed

lemma foldl_render_stat_row_report [simp]:
  "report (foldl (render_stat_row stat_line env left_data right_data total_count lb rb) pass iis)
     = report pass"
  by (induction iis arbitrary: pass) simp_all

lemma foldl_render_stat_row_surface:
  "\<exists>ops. surface (foldl (render_stat_row stat_line env left_data right_data total_count lb rb)
                     pass iis) = surface pass @ ops
         \<and> list_all is_show_text ops
         \<and> text_lines ops =
             concat (map (\<lambda>ii. side_line stat_line env left_data total_count ii
                               @ side_line stat_line env right_data total_count ii) iis)"
proof (induction iis arbitrary: pass)
  case Nil
  then show ?case by simp
next
  case (Cons ii iis)
  let ?p = "render_stat_row stat_line env left_data right_data total_count lb rb pass ii"
  obtain ops1 where o1: "surface ?p = surface pass @ ops1" "list_all is_show_text ops1"
      "text_lines ops1 = side_line stat_line env left_data total_count ii
                         @ side_line stat_line env right_data total_count ii"
    using render_stat_row_surface by blast
  obtain ops2 where o2:
      "surface (foldl (render_stat_row stat_line env left_data right_data total_count lb rb) ?p iis)
         = surface ?p @ ops2"
      "list_all is_show_text ops2"
      "text_lines ops2 =
         concat (map (\<lambda>ii. side_line stat_line env left_data total_count ii
                           @ side_line stat_line env right_data total_count ii) iis)"
    using Cons.IH by blast
  show ?case
    using o1 o2 by (intro exI [of _ "ops1 @ ops2"]) (simp add: text_lines_append)
qed

lemma render_pair_charts_eq:
  "render_pair_charts chart_height draw pass left right =
     pass\<lparr> surface := surface pass @
              [draw left (fst (pair_bounds pass chart_height)),
               draw right (snd (pair_bounds pass chart_height))],
           end_of_content := fadd (end_of_content pass) (fmax chart_height chart_height) \<rparr>"
  by (simp add: render_pair_charts_def pair_bounds_def advance_def Let_def)

lemma render_pair_report [simp]:
  "report (render_pair chart_height draw stat_line env pass left right) = report pass"
  by (simp add: render_pair_def Let_def render_pair_charts_eq case_prod_beta)

lemma render_pair_surface:
  "\<exists>rows. surface (render_pair chart_height draw stat_line env pass left right)
            = surface pass @ [draw left (fst (pair_bounds pass chart_height)),
                              draw right (snd (pair_bounds pass chart_height))] @ rows
          \<and> list_all is_show_text rows
          \<and> text_lines rows =
              concat (map (\<lambda>ii. side_line stat_line env (get_data left)
                                   (ingest_count (get_data left)) ii
                                @ side_line stat_line env (get_data right)
                                   (ingest_count (get_data left)) ii)
                        [0 ..< histogram_show_top_n_text (report pass)])"
proof -
  let ?p1 = "render_pair_charts chart_height draw pass left right"
  let ?lb = "fst (pair_bounds pass chart_height)" and ?rb = "snd (pair_bounds pass chart_height)"
  obtain rows where rows:
    "surface (foldl (render_stat_row stat_line env (get_data left) (get_data right)
                       (ingest_count (get_data left)) ?lb ?rb) ?p1
                [0 ..< histogram_show_top_n_text (report ?p1)]) = surface ?p1 @ rows"
    "list_all is_show_text rows"
    "text_lines rows =
       concat (map (\<lambda>ii. side_line stat_line env (get_data left) (ingest_count (get_data left)) ii
                         @ side_line stat_line env (get_data right) (ingest_count (get_data left)) ii)
                 [0 ..< histogram_show_top_n_text (report ?p1)])"
    using foldl_render_stat_row_surface by blast
  have p1: "surface ?p1 = surface pass @ [draw left ?lb, draw right ?rb]" "report ?p1 = report pass"
    by (simp_all add: render_pair_charts_eq)
  have "surface (render_pair chart_height draw stat_line env pass left right)
          = surface (foldl (render_stat_row stat_line env (get_data left) (get_data right)
                       (ingest_count (get_data left)) ?lb ?rb) ?p1
                [0 ..< histogram_show_top_n_text (report ?p1)])"
    by (simp add: render_pair_def Let_def case_prod_beta)
  then show ?thesis
    using rows p1 by (intro exI [of _ rows]) simp
qed


lemma render_header_report:
  "report (render_header env pass) =
     (report pass)\<lparr> transport_counts :=
        map_index ETHERTYPE_ARP (map_index ETHERTYPE_IPV6
          (map_index ETHERTYPE_IP (transport_counts (report pass)))) \<rparr>"
  by (simp add: render_header_def Let_def)

lemma full_width_report [simp]:
  "report (render_time_histogram pass view_title) = report pass"
  "report (render_map pass) = report pass"
  "report (render_packetfall pass) = report pass"
  by (simp_all add: render_time_histogram_def render_map_def render_packetfall_def Let_def)

lemma render_sections_report:
  "report (render_sections env r) =
     r\<lparr> transport_counts :=
        map_index ETHERTYPE_ARP (map_index ETHERTYPE_IPV6
          (map_index ETHERTYPE_IP (transport_counts r))) \<rparr>"
  by (simp add: render_sections_def Let_def render_address_pair_def render_port_pair_def
        render_header_report)

text \<open>
  Claim C9. The claim: a call of \<^verbatim>\<open>render\<close> leaves the aggregate state as it was, and
  the transport line of the header inserts no key into \<open>transport_counts\<close>. The code
  looks the three ethertypes up with \<^verbatim>\<open>operator[]\<close> on the report's own map, which
  inserts a key that is absent: after one IPv4 TCP record \<open>transport_counts\<close> is
  \<open>{0x0800: 1}\<close>, and after \<^verbatim>\<open>render\<close>, in every environment, it is
  \<open>{0x0800: 1, 0x0806: 0, 0x86dd: 0}\<close>.
\<close>

theorem C9_render_inserts_transport_keys:
  "transport_counts (ingest_all new_report [tcp4_segment 1000 1]) = [(0x0800, 1)]
   \<and> map_sum id (transport_counts \<circ> final_report)
         (render env outdir (ingest_all new_report [tcp4_segment 1000 1]))
       = Inr [(0x0800, 1), (0x0806, 0), (0x86dd, 0)]"
proof -
  have "transport_counts (ingest_all new_report [tcp4_segment 1000 1]) = [(0x0800, 1)]"
    by (simp add: ingest_all_def ingest_packet_counters new_report_def tcp4_segment_def
          map_incr_def)
  then show ?thesis
    by (simp add: render_def Let_def render_sections_report
          ETHERTYPE_IP_def ETHERTYPE_IPV6_def ETHERTYPE_ARP_def)
qed

lemma render_sections_ignores_status:
  "render_sections (env\<lparr> surface_create_status := f \<rparr>) r = render_sections env r"
proof -
  have [simp]: "render_text (env\<lparr> surface_create_status := f \<rparr>) = render_text env"
    by (intro ext) (simp add: render_text_def)
  have [simp]: "render_text_line (env\<lparr> surface_create_status := f \<rparr>) = render_text_line env"
    by (intro ext) (simp add: render_text_line_def)
  have [simp]: "render_header (env\<lparr> surface_create_status := f \<rparr>) = render_header env"
    by (intro ext) (simp add: render_header_def)
  have [simp]: "render_stat stat_line (env\<lparr> surface_create_status := f \<rparr>) = render_stat stat_line env"
    for stat_line :: "nat \<Rightarrow> 'k \<Rightarrow> string \<Rightarrow> u8 \<Rightarrow> text_line"
    by (intro ext) (simp add: render_stat_def)
  have [simp]: "render_stat_row stat_line (env\<lparr> surface_create_status := f \<rparr>)
                  = render_stat_row stat_line env"
    for stat_line :: "nat \<Rightarrow> 'k \<Rightarrow> string \<Rightarrow> u8 \<Rightarrow> text_line"
    by (intro ext) (simp add: render_stat_row_def)
  have [simp]: "render_pair h draw stat_line (env\<lparr> surface_create_status := f \<rparr>)
                  = render_pair h draw stat_line env"
    for stat_line :: "nat \<Rightarrow> 'k \<Rightarrow> string \<Rightarrow> u8 \<Rightarrow> text_line" and h draw
    by (intro ext) (simp add: render_pair_def)
  show ?thesis
    by (simp add: render_sections_def render_address_pair_def render_port_pair_def)
qed

text \<open>
  Claim C8, as amended. \<^verbatim>\<open>render\<close> has no failure path: whatever status the created
  surface has, it runs every section of the layout, destroys the context and the surface and
  returns normally; the sections it runs and the calls it issues do not depend on that status,
  and no error reaches the caller.
\<close>

theorem C8_render_never_reports_failure:
  "render env outdir r =
     Inr \<lparr> final_report = report (render_sections env r),
           calls = surface (render_sections env r) @ [Cairo_destroy, Cairo_surface_destroy],
           surface_status = surface_create_status env (outdir @ ''/'' @ filename r) \<rparr>
   \<and> render_sections (env\<lparr> surface_create_status := f \<rparr>) r = render_sections env r
   \<and> render env outdir r \<noteq> Inl IO_error"
  by (simp add: render_def Let_def render_sections_ignores_status)



text \<open>
  Claim C8 as stated fails: for an output directory in which the surface cannot be created,
  \<^verbatim>\<open>render\<close> returns no error and issues exactly the calls of a render whose surface
  was created.
\<close>

theorem C8_failed_creation_counterexample:
  "surface_create_status example_env (''/nonexistent'' @ ''/'' @ filename new_report)
     = CAIRO_STATUS_WRITE_ERROR
   \<and> surface_create_status working_env (''/nonexistent'' @ ''/'' @ filename new_report)
     = CAIRO_STATUS_SUCCESS
   \<and> render example_env ''/nonexistent'' new_report \<noteq> Inl IO_error
   \<and> map_sum id calls (render example_env ''/nonexistent'' new_report)
     = map_sum id calls (render working_env ''/nonexistent'' new_report)"
  by (simp add: render_def Let_def working_env_def render_sections_ignores_status)
     (simp add: example_env_def new_report_def)

section \<open>Bounds on rounding\<close>

lemma round_half_even_bounds:
  "q - 1 / 2 \<le> of_int (round_half_even q)" "of_int (round_half_even q) \<le> q + 1 / 2"
proof -
  define f where "f = \<lfloor>q\<rfloor>"
  have f: "of_int f \<le> q" "q < of_int f + 1"
    unfolding f_def by linarith+
  have r: "round_half_even q =
             (if q - of_int f < 1 / 2 then f else if 1 / 2 < q - of_int f then f + 1
              else if even f then f else f + 1)"
    by (simp add: round_half_even_def Let_def f_def)
  show "q - 1 / 2 \<le> of_int (round_half_even q)"
    using f unfolding r by (simp split: if_splits)
  show "of_int (round_half_even q) \<le> q + 1 / 2"
    using f unfolding r by (simp split: if_splits)
qed

lemma round_half_even_nonneg: "0 \<le> q \<Longrightarrow> 0 \<le> round_half_even q"
  by (auto simp: round_half_even_def Let_def)

lemma flog2_ge_1: "1 \<le> q \<Longrightarrow> 0 \<le> flog2 q \<and> 2 powi (flog2 q) \<le> q"
proof -
  assume q: "1 \<le> q"
  then have pos: "0 < \<lfloor>q\<rfloor>"
    by linarith
  with bitlen_bounds [of "\<lfloor>q\<rfloor>"] have b: "2 ^ nat (bitlen \<lfloor>q\<rfloor> - 1) \<le> \<lfloor>q\<rfloor>"
    by simp
  have ge: "1 \<le> bitlen \<lfloor>q\<rfloor>"
    using pos by (simp add: bitlen_alt_def)
  have "(2::rat) powi (flog2 q) = 2 ^ nat (bitlen \<lfloor>q\<rfloor> - 1)"
    using q ge by (simp add: flog2_def power_int_def)
  also have "\<dots> = of_int (2 ^ nat (bitlen \<lfloor>q\<rfloor> - 1))"
    by simp
  also have "\<dots> \<le> of_int \<lfloor>q\<rfloor>"
    using b by (simp only: of_int_le_iff)
  also have "\<dots> \<le> q"
    by simp
  finally show ?thesis
    using q ge by (simp add: flog2_def)
qed

lemma flog2_lt_1: "q < 1 \<Longrightarrow> flog2 q \<le> 0"
  by (simp add: flog2_def bitlen_nonneg)

lemma ulp_le: "0 < q \<Longrightarrow> 2 powi (max (flog2 q - 52) (- 1074)) \<le> max q (1::rat)"
proof (cases "1 \<le> q")
  case True
  then have f: "0 \<le> flog2 q" "2 powi (flog2 q) \<le> q"
    using flog2_ge_1 by auto
  have "(2::rat) powi (max (flog2 q - 52) (- 1074)) \<le> 2 powi (flog2 q)"
    using f(1) by (intro power_int_increasing) auto
  then show ?thesis
    using f(2) by simp
next
  case False
  then have "flog2 q \<le> 0"
    by (simp add: flog2_lt_1)
  then have "(2::rat) powi (max (flog2 q - 52) (- 1074)) \<le> 2 powi 0"
    by (intro power_int_increasing) auto
  then show ?thesis
    by simp
qed

lemma round53_bounds:
  assumes "0 < q"
  shows "0 \<le> round53 q" "round53 q \<le> 2 * q + 1" "1 \<le> q \<Longrightarrow> q / 2 \<le> round53 q"
proof -
  define e where "e = max (flog2 q - 52) (- 1074)"
  define u :: rat where "u = 2 powi e"
  have u: "0 < u" "u \<le> max q 1"
    using ulp_le [OF assms] by (simp_all add: u_def e_def)
  have r: "round53 q = of_int (round_half_even (q / u)) * u"
    by (simp add: round53_def Let_def e_def u_def)
  have "0 \<le> q / u"
    using assms u by simp
  then have "0 \<le> round_half_even (q / u)"
    by (rule round_half_even_nonneg)
  then show "0 \<le> round53 q"
    using u by (simp add: r)
  have "of_int (round_half_even (q / u)) * u \<le> (q / u + 1 / 2) * u"
    using round_half_even_bounds(2) [of "q / u"] u by (intro mult_right_mono) auto
  also have "\<dots> = q + u / 2"
    using u by (simp add: field_simps)
  finally show "round53 q \<le> 2 * q + 1"
    using u assms by (simp add: r max_def split: if_splits)
  assume q1: "1 \<le> q"
  have "(q / u - 1 / 2) * u \<le> of_int (round_half_even (q / u)) * u"
    using round_half_even_bounds(1) [of "q / u"] u by (intro mult_right_mono) auto
  moreover have "(q / u - 1 / 2) * u = q - u / 2"
    using u by (simp add: field_simps)
  ultimately show "q / 2 \<le> round53 q"
    using u q1 by (simp add: r max_def split: if_splits)
qed

lemma overflow_threshold_large: "2 ^ 200 < overflow_threshold"
  by (simp add: overflow_threshold_def)

lemma rnd_finite:
  assumes "\<bar>q\<bar> \<le> 2 ^ 100"
  shows "\<exists>r. rnd q = Fin r \<and> \<bar>r\<bar> \<le> 2 * \<bar>q\<bar> + 1 \<and> (0 \<le> q \<longrightarrow> 0 \<le> r) \<and> (1 \<le> q \<longrightarrow> 1 / 2 \<le> r)"
proof -
  have small: "\<bar>q\<bar> < overflow_threshold"
    using assms overflow_threshold_large by (simp add: less_le_trans [rotated] le_less_trans)
  consider "q = 0" | "0 < q" | "q < 0"
    by linarith
  then show ?thesis
  proof cases
    case 1
    then show ?thesis by (simp add: rnd_def)
  next
    case 2
    then have "rnd q = Fin (round53 q)"
      using small by (simp add: rnd_def)
    then show ?thesis
      using round53_bounds [OF 2] 2 by auto
  next
    case 3
    then have "rnd q = Fin (- round53 (- q))"
      using small by (simp add: rnd_def)
    moreover have "0 < - q"
      using 3 by simp
    ultimately show ?thesis
      using round53_bounds [of "- q"] 3 by auto
  qed
qed

text \<open>
  The rounding model is the one intended: \<open>flog2\<close> is the binary exponent, and
  \<open>round53\<close> returns a multiple of the unit in the last place at most half a unit away.
\<close>

lemma flog2_correct:
  assumes "0 < q"
  shows "2 powi (flog2 q) \<le> q \<and> q < 2 powi (flog2 q + 1)"
proof (cases "1 \<le> q")
  case True
  then have pos: "0 < \<lfloor>q\<rfloor>"
    by linarith
  have ge: "1 \<le> bitlen \<lfloor>q\<rfloor>"
    using pos by (simp add: bitlen_alt_def)
  have "\<lfloor>q\<rfloor> < 2 ^ nat (bitlen \<lfloor>q\<rfloor>)"
    using bitlen_bounds [OF pos] by simp
  then have "\<lfloor>q\<rfloor> + 1 \<le> 2 ^ nat (bitlen \<lfloor>q\<rfloor>)"
    by simp
  then have "(of_int (\<lfloor>q\<rfloor> + 1) :: rat) \<le> of_int (2 ^ nat (bitlen \<lfloor>q\<rfloor>))"
    by (simp only: of_int_le_iff)
  moreover have "q < of_int (\<lfloor>q\<rfloor> + 1)"
    by linarith
  ultimately have "q < 2 ^ nat (bitlen \<lfloor>q\<rfloor>)"
    by simp
  moreover have "(2::rat) powi (flog2 q + 1) = 2 ^ nat (bitlen \<lfloor>q\<rfloor>)"
    using True ge by (simp add: flog2_def power_int_def)
  ultimately show ?thesis
    using flog2_ge_1 [OF True] by simp
next
  case False
  define c where "c = \<lceil>1 / q\<rceil>"
  define k where "k = bitlen (c - 1)"
  have r: "1 < 1 / q"
    using False assms by simp
  then have c: "1 / q \<le> of_int c" "of_int c - 1 < 1 / q" "0 < c - 1"
    unfolding c_def by linarith+
  have b: "2 ^ nat (k - 1) \<le> c - 1" "c - 1 < 2 ^ nat k"
    using bitlen_bounds [OF c(3)] by (simp_all add: k_def)
  have k: "1 \<le> k"
    using c(3) by (simp add: k_def bitlen_alt_def)
  have f: "flog2 q = - k"
    using False by (simp add: flog2_def k_def c_def)
  have "c \<le> 2 ^ nat k"
    using b(2) by simp
  then have "(of_int c :: rat) \<le> of_int (2 ^ nat k)"
    by (simp only: of_int_le_iff)
  from order_trans [OF c(1) this] have up: "1 / q \<le> 2 ^ nat k"
    by simp
  have "(of_int (2 ^ nat (k - 1)) :: rat) \<le> of_int (c - 1)"
    using b(1) by (simp only: of_int_le_iff)
  moreover have "(of_int (c - 1) :: rat) < 1 / q"
    using c(2) by simp
  ultimately have "(of_int (2 ^ nat (k - 1)) :: rat) < 1 / q"
    by (rule order.strict_trans1)
  then have lo: "2 ^ nat (k - 1) < 1 / q"
    by simp
  have "1 / 2 ^ nat k \<le> q"
    using up assms by (simp add: field_simps)
  moreover have "q < 1 / 2 ^ nat (k - 1)"
    using lo assms by (simp add: field_simps)
  moreover have "(2::rat) powi (- k) = 1 / 2 ^ nat k"
    using k by (simp add: power_int_def field_simps)
  moreover have "(2::rat) powi (- k + 1) = 1 / 2 ^ nat (k - 1)"
  proof (cases "k = 1")
    case True
    then show ?thesis by simp
  next
    case False
    with k have "- k + 1 < 0" "nat (- (- k + 1)) = nat (k - 1)"
      by simp_all
    then show ?thesis
      by (simp add: power_int_def field_simps del: minus_diff_eq minus_add_distrib)
  qed
  ultimately show ?thesis
    by (simp add: f)
qed

lemma round53_nearest:
  assumes "0 < q"
  shows "\<bar>round53 q - q\<bar> \<le> 2 powi (max (flog2 q - 52) (- 1074)) / 2"
proof -
  define u :: rat where "u = 2 powi (max (flog2 q - 52) (- 1074))"
  have u: "0 < u"
    by (simp add: u_def)
  have r: "round53 q = of_int (round_half_even (q / u)) * u"
    by (simp add: round53_def Let_def u_def)
  have "\<bar>of_int (round_half_even (q / u)) - q / u\<bar> \<le> 1 / 2"
    using round_half_even_bounds [of "q / u"] by linarith
  then have "\<bar>of_int (round_half_even (q / u)) - q / u\<bar> * u \<le> 1 / 2 * u"
    using u by (intro mult_right_mono) auto
  moreover have "\<bar>of_int (round_half_even (q / u)) - q / u\<bar> * u = \<bar>round53 q - q\<bar>"
  proof -
    have "\<bar>of_int (round_half_even (q / u)) - q / u\<bar> * u
            = \<bar>(of_int (round_half_even (q / u)) - q / u) * u\<bar>"
      using u by (simp add: abs_mult)
    also have "(of_int (round_half_even (q / u)) - q / u) * u = round53 q - q"
      using u by (simp add: r left_diff_distrib)
    finally show ?thesis .
  qed
  ultimately have "\<bar>round53 q - q\<bar> \<le> 1 / 2 * u"
    by (simp only:)
  then show ?thesis
    by (simp add: u_def)
qed

section \<open>The transport line of the header\<close>

lemma double_of_u64_finite:
  "\<exists>r. double_of_u64 w = Fin r \<and> 0 \<le> r \<and> r \<le> 2 ^ 66 \<and> (w \<noteq> 0 \<longrightarrow> 1 / 2 \<le> r)"
proof -
  define n where "n = unat w"
  have d: "double_of_u64 w = rnd (of_nat n)"
    by (simp add: double_of_u64_def n_def)
  have "n < 2 ^ 64"
    unfolding n_def using unsigned_less [of w, where ?'a = nat] by simp
  then have "n \<le> 2 ^ 64"
    by simp
  then have "(of_nat n :: rat) \<le> of_nat (2 ^ 64)"
    by (simp only: of_nat_le_iff)
  then have le: "(of_nat n :: rat) \<le> 2 ^ 64"
    by simp
  have nn: "0 \<le> (of_nat n :: rat)"
    by simp
  have "(2::rat) ^ 64 \<le> 2 ^ 100"
    by simp
  with le have "\<bar>of_nat n :: rat\<bar> \<le> 2 ^ 100"
    by simp
  from rnd_finite [OF this] obtain r where r: "rnd (of_nat n) = Fin r"
      "\<bar>r\<bar> \<le> 2 * \<bar>of_nat n :: rat\<bar> + 1" "0 \<le> r"
      "1 \<le> (of_nat n :: rat) \<longrightarrow> 1 / 2 \<le> r"
    by auto
  have "r \<le> 2 ^ 66"
    using r(2) le nn by simp
  moreover have "1 \<le> (of_nat n :: rat)" if "w \<noteq> 0"
  proof -
    have "0 < n"
      using that by (simp add: n_def unat_gt_0)
    then have "1 \<le> n"
      by simp
    then show ?thesis
      by (simp only: of_nat_1 [symmetric, where ?'a = rat] of_nat_le_iff)
  qed
  ultimately show ?thesis
    using r d by (intro exI [of _ r]) auto
qed

lemma fdiv_u64_finite:
  assumes "t \<noteq> 0"
  shows "\<exists>r. fdiv (double_of_u64 a) (double_of_u64 t) = Fin r \<and> \<bar>r\<bar> \<le> 2 ^ 70"
proof -
  obtain ra where ra: "double_of_u64 a = Fin ra" "0 \<le> ra" "ra \<le> 2 ^ 66"
    using double_of_u64_finite [of a] by auto
  obtain rt where rt: "double_of_u64 t = Fin rt" "1 / 2 \<le> rt"
    using double_of_u64_finite [of t] assms by auto
  have "ra / rt \<le> ra / (1 / 2)"
    using ra rt by (intro divide_left_mono) auto
  then have q: "0 \<le> ra / rt" "ra / rt \<le> 2 ^ 67"
    using ra rt by auto
  then have "\<bar>ra / rt\<bar> \<le> 2 ^ 100"
    by simp
  from rnd_finite [OF this] obtain r where "rnd (ra / rt) = Fin r" "\<bar>r\<bar> \<le> 2 * \<bar>ra / rt\<bar> + 1"
    by auto
  then show ?thesis
    using q ra rt by (intro exI [of _ r]) auto
qed

lemma percentage_finite:
  assumes "t \<noteq> 0"
  shows "\<exists>p. fmul (fdiv (double_of_u64 a) (double_of_u64 t)) (Fin 100) = Fin p"
proof -
  obtain r where r: "fdiv (double_of_u64 a) (double_of_u64 t) = Fin r" "\<bar>r\<bar> \<le> 2 ^ 70"
    using fdiv_u64_finite [OF assms] by blast
  have "\<bar>r * 100\<bar> \<le> 2 ^ 100"
    using r(2) by (simp add: abs_mult)
  from rnd_finite [OF this] show ?thesis
    using r(1) by auto
qed

lemma other_percentage_finite:
  assumes "t \<noteq> 0"
  shows "\<exists>p. fmul (fsub (Fin 1) (fdiv (double_of_u64 a) (double_of_u64 t))) (Fin 100) = Fin p"
proof -
  obtain r where r: "fdiv (double_of_u64 a) (double_of_u64 t) = Fin r" "\<bar>r\<bar> \<le> 2 ^ 70"
    using fdiv_u64_finite [OF assms] by blast
  have "\<bar>1 - r\<bar> \<le> 2 ^ 100"
    using r(2) by simp
  from rnd_finite [OF this] obtain s where s: "rnd (1 - r) = Fin s" "\<bar>s\<bar> \<le> 2 * \<bar>1 - r\<bar> + 1"
    by auto
  have "\<bar>1 - r\<bar> \<le> 1 + \<bar>r\<bar>"
    by simp
  then have "\<bar>s\<bar> \<le> 2 ^ 72"
    using s(2) r(2) by simp
  then have "\<bar>s * 100\<bar> \<le> 2 ^ 100"
    by (simp add: abs_mult)
  from rnd_finite [OF this] show ?thesis
    using r(1) s(1) by (auto simp: fsub_def)
qed

lemma foldl_transport_total:
  "foldl (\<lambda>total_count (k, v). total_count + v) a m
     = a + foldl (\<lambda>total_count (k, v). total_count + v) 0 m" for a :: u64
proof (induction m arbitrary: a)
  case Nil
  then show ?case by simp
next
  case (Cons x m)
  obtain k v where x: "x = (k, v)"
    by (cases x)
  have "foldl (\<lambda>total_count (k, v). total_count + v) a (x # m)
          = (a + v) + foldl (\<lambda>total_count (k, v). total_count + v) 0 m"
    using Cons.IH [of "a + v"] by (simp add: x)
  moreover have "foldl (\<lambda>total_count (k, v). total_count + v) 0 (x # m)
          = v + foldl (\<lambda>total_count (k, v). total_count + v) 0 m"
    using Cons.IH [of v] by (simp add: x)
  ultimately show ?case
    by (simp only: add.assoc)
qed

lemma transport_total_Cons: "transport_total ((k, v) # m) = v + transport_total m"
  using foldl_transport_total [of v m] by (simp add: transport_total_def)

lemma transport_total_Nil [simp]: "transport_total [] = 0"
  by (simp add: transport_total_def)

lemma transport_total_map_index: "transport_total (map_index k m) = transport_total m"
  by (induction k m rule: map_index.induct) (simp_all add: transport_total_Cons)

lemma transport_total_map_store:
  "k \<in> fst ` set m \<Longrightarrow> transport_total (map_store k w m) = transport_total m - map_at m k + w"
  by (induction k w m rule: map_store.induct) (force simp: transport_total_Cons)+

lemma transport_total_map_incr: "transport_total (map_incr k m) = transport_total m + 1"
  by (simp add: map_incr_def Let_def transport_total_map_store set_map_index
        transport_total_map_index)

lemma transport_total_ingest_all:
  "transport_total (transport_counts (ingest_all r pkts))
     = transport_total (transport_counts r) + of_nat (length pkts)"
  by (induction pkts rule: rev_induct)
     (simp_all add: ingest_all_snoc ingest_packet_counters transport_total_map_incr,
      simp add: ingest_all_def)

lemma render_text_line_surface:
  "surface (render_text_line env pass text font_size line_space)
     = surface pass @ [Show_text text font_size (Fin 0)
                         (fadd (end_of_content pass) (text_extents_height env text font_size))]"
  by (simp add: render_text_line_def render_text_def Let_def)

lemma render_header_text_lines:
  "text_lines (surface (render_header env pass)) =
     text_lines (surface pass) @
     [Title_version, Input_line (source_identifier (report pass)), Generated_line (time_now env),
      Date_range_line (tv_sec (earliest (report pass))) (tv_sec (latest (report pass))),
      Packets_analyzed_line (packet_count (report pass))
        (pretty_byte_total (libm_log env) (byte_count (report pass))),
      (let total_count = transport_total (transport_counts (report pass));
           m = map_index ETHERTYPE_ARP (map_index ETHERTYPE_IPV6
                 (map_index ETHERTYPE_IP (transport_counts (report pass))));
           ip4 = map_at m ETHERTYPE_IP; ip6 = map_at m ETHERTYPE_IPV6; arp = map_at m ETHERTYPE_ARP
       in Transports_line
            (fmul (fdiv (double_of_u64 ip4) (double_of_u64 total_count)) (Fin 100))
            (fmul (fdiv (double_of_u64 ip6) (double_of_u64 total_count)) (Fin 100))
            (fmul (fdiv (double_of_u64 arp) (double_of_u64 total_count)) (Fin 100))
            (fmul (fsub (Fin 1)
                     (fdiv (double_of_u64 (ip4 + ip6 + arp)) (double_of_u64 total_count)))
                  (Fin 100)))]"
  by (simp add: render_header_def Let_def render_text_line_surface text_lines_append)

text \<open>
  Claim C10. \<^verbatim>\<open>render_header\<close> divides by \<open>transport_total\<close>, the sum of all
  values of \<open>transport_counts\<close>, without testing it. Every \<^verbatim>\<open>ingest_packet\<close> adds
  one to some entry, so after ingesting a sequence of records into a new report
  \<open>transport_total\<close> is the number of records (as a 64-bit value). Hence, when at least
  one record has been ingested (and fewer than \<open>2 ^ 64\<close>, more than the counters can
  count), \<open>transport_total\<close> is not zero and the four percentages of the transport line
  are finite numbers, neither NaN nor an infinity.
\<close>

theorem C10_transport_total_positive:
  "transport_total (transport_counts (ingest_all new_report pkts)) = of_nat (length pkts)
   \<and> (pkts \<noteq> [] \<and> length pkts < 2 ^ 64 \<and> report pass = ingest_all new_report pkts \<longrightarrow>
        transport_total (transport_counts (report pass)) \<noteq> 0
        \<and> (\<exists>ip4 ip6 arp other.
              last (text_lines (surface (render_header env pass)))
                = Transports_line (Fin ip4) (Fin ip6) (Fin arp) (Fin other)))"
proof -
  have tot: "transport_total (transport_counts (ingest_all new_report pkts)) = of_nat (length pkts)"
    by (simp add: transport_total_ingest_all new_report_def)
  have nz: "transport_total (transport_counts (ingest_all new_report pkts)) \<noteq> 0"
    if "pkts \<noteq> []" "length pkts < 2 ^ 64"
  proof -
    have "unat (of_nat (length pkts) :: u64) = length pkts"
      using that(2) by (simp add: unat_of_nat)
    then show ?thesis
      using that(1) unfolding tot by (metis length_0_conv unat_0)
  qed
  have fin: "\<exists>ip4 ip6 arp other.
              last (text_lines (surface (render_header env pass)))
                = Transports_line (Fin ip4) (Fin ip6) (Fin arp) (Fin other)"
    if "transport_total (transport_counts (report pass)) \<noteq> 0"
    using percentage_finite [OF that] other_percentage_finite [OF that]
    by (simp add: render_header_text_lines Let_def)
  show ?thesis
    using tot nz fin by auto
qed

theorem C10_transport_total_positive_witness:
  "[tcp4_segment 1000 1] \<noteq> [] \<and> length [tcp4_segment 1000 1] < 2 ^ 64
   \<and> transport_total (transport_counts (ingest_all new_report [tcp4_segment 1000 1])) = 1
   \<and> (\<exists>ip4 ip6 arp other.
         last (text_lines (surface (render_header example_env
                 \<lparr> report = ingest_all new_report [tcp4_segment 1000 1],
                   surface_bounds = pad_bounds new_report, end_of_content = Fin 0,
                   surface = [] \<rparr>)))
           = Transports_line (Fin ip4) (Fin ip6) (Fin arp) (Fin other))"
  using C10_transport_total_positive
    [where pkts = "[tcp4_segment 1000 1]" and env = example_env
       and pass = "\<lparr> report = ingest_all new_report [tcp4_segment 1000 1],
                      surface_bounds = pad_bounds new_report, end_of_content = Fin 0,
                      surface = [] \<rparr>"]
  by simp


section \<open>pretty\_byte\_total\<close>

lemma double_of_u64_0: "double_of_u64 0 = Fin 0"
  by (simp add: double_of_u64_def rnd_def)

lemma round53_below_7:
  assumes "0 < q" "q \<le> 13 / 2"
  shows "round53 q < 7"
proof -
  have f: "2 powi (flog2 q) \<le> q"
    using flog2_correct [OF assms(1)] by simp
  have "flog2 q < 3"
  proof (rule ccontr)
    assume "\<not> flog2 q < 3"
    then have "(2::rat) powi 3 \<le> 2 powi (flog2 q)"
      by (intro power_int_increasing) auto
    with f assms(2) show False
      by simp
  qed
  then have "(2::rat) powi (max (flog2 q - 52) (- 1074)) \<le> 2 powi (- 1)"
    by (intro power_int_increasing) auto
  then have "(2::rat) powi (max (flog2 q - 52) (- 1074)) \<le> 1 / 2"
    by (simp add: power_int_def)
  with round53_nearest [OF assms(1)] have "\<bar>round53 q - q\<bar> \<le> 1 / 4"
    by simp
  then show ?thesis
    using assms(2) by linarith
qed

lemma fdiv_log_quotient:
  assumes "0 \<le> a" "0 < b" "a \<le> 13 / 2 * b"
  shows "\<exists>q. fdiv (Fin a) (Fin b) = Fin q \<and> 0 \<le> q \<and> q < 7"
proof (cases "a = 0")
  case True
  then show ?thesis
    using assms(2) by (simp add: rnd_def)
next
  case False
  then have pos: "0 < a / b"
    using assms by simp
  have le: "a / b \<le> 13 / 2"
    using assms by (simp add: field_simps)
  have "(13 / 2 :: rat) < 2 ^ 200"
    by simp
  with le have "a / b < 2 ^ 200"
    by (rule le_less_trans)
  then have "a / b < overflow_threshold"
    using overflow_threshold_large by (rule less_trans)
  then have "fdiv (Fin a) (Fin b) = Fin (round53 (a / b))"
    using pos assms(2) False by (simp add: rnd_def)
  then show ?thesis
    using round53_bounds(1) [OF pos] round53_below_7 [OF pos le] by simp
qed

lemma u64_of_double_small:
  assumes "0 \<le> q" "q < 7"
  shows "u64_of_double (Fin q) = word_of_int \<lfloor>q\<rfloor>" "0 \<le> \<lfloor>q\<rfloor>" "\<lfloor>q\<rfloor> < 7"
proof -
  show k: "0 \<le> \<lfloor>q\<rfloor>" "\<lfloor>q\<rfloor> < 7"
    using assms by (simp_all add: floor_less_iff)
  have "\<not> fge (Fin q) (Fin (2 ^ 63))"
    using assms by (simp add: fge_def)
  then show "u64_of_double (Fin q) = word_of_int \<lfloor>q\<rfloor>"
    using assms k by (simp add: u64_of_double_def trunc_to_zero_def)
qed

lemma suffix_index_small:
  assumes "0 \<le> k" "k < 7"
  shows "\<not> (7 :: u64) \<le> word_of_int k" "unat (word_of_int k :: u64) = nat k"
proof -
  from assms have "k = 0 \<or> k = 1 \<or> k = 2 \<or> k = 3 \<or> k = 4 \<or> k = 5 \<or> k = 6"
    by arith
  then show "\<not> (7 :: u64) \<le> word_of_int k" "unat (word_of_int k :: u64) = nat k"
    by (auto simp: word_le_nat_alt)
qed

lemma u64_of_double_not_finite:
  "u64_of_double MInf = 2 ^ 63" "u64_of_double PInf = 0" "u64_of_double NaN = 2 ^ 63"
  by (simp_all add: u64_of_double_def fge_def fsub_def)

lemma reset_of_indefinite:
  "x = 2 ^ 63 \<or> x = 0 \<Longrightarrow> (if (7 :: u64) \<le> x then 0 else x) = 0"
proof -
  have "(7 :: u64) \<le> 2 ^ 63"
    by (simp add: word_le_nat_alt)
  then show "x = 2 ^ 63 \<or> x = 0 \<Longrightarrow> (if (7 :: u64) \<le> x then 0 else x) = 0"
    by auto
qed

lemma pretty_byte_total_0: "pretty_byte_total ln_fin 0 = ''0.00 ''"
proof -
  have z: "printf_2f (fdiv (Fin 0) (c_pow 1000 0)) = ''0.00''"
    by code_simp
  have "u64_of_double (fdiv MInf d) = 2 ^ 63 \<or> u64_of_double (fdiv MInf d) = 0" for d
    by (cases d) (simp_all add: u64_of_double_not_finite)
  then have
    "(if (7 :: u64) \<le> u64_of_double (fdiv MInf d) then 0 else u64_of_double (fdiv MInf d)) = 0"
    for d
    by (rule reset_of_indefinite)
  then show ?thesis
    by (simp add: pretty_byte_total_def double_of_u64_0 size_suffixes_def Let_def z)
qed


lemma ln_samples_logs:
  "c_log ln_samples (Fin 1000) = Fin (243045032034301 / 35184372088832)"
  "c_log ln_samples (Fin 1500) = Fin (8233954152544549 / 1125899906842624)"
  "c_log ln_samples (Fin 2500000) = Fin (1036658356240821 / 70368744177664)"
  by code_simp+

lemma double_of_u64_examples:
  "double_of_u64 1500 = Fin 1500" "double_of_u64 2500000 = Fin 2500000"
  by (simp_all add: double_of_u64_def) code_simp+

lemma pretty_byte_total_in_range:
  assumes "fdiv (c_log ln_fin (double_of_u64 n)) (c_log ln_fin (Fin 1000)) = Fin q"
    and "0 \<le> q" "q < 7"
  shows "pretty_byte_total ln_fin n =
           printf_2f (fdiv (double_of_u64 n) (c_pow 1000 (nat \<lfloor>q\<rfloor>)))
           @ '' '' @ size_suffixes ! nat \<lfloor>q\<rfloor>"
    and "nat \<lfloor>q\<rfloor> < length size_suffixes"
proof -
  have k: "0 \<le> \<lfloor>q\<rfloor>" "\<lfloor>q\<rfloor> < 7"
    and u: "u64_of_double (Fin q) = word_of_int \<lfloor>q\<rfloor>"
    using u64_of_double_small [OF assms(2,3)] by auto
  have len: "length size_suffixes = 7"
    by (simp add: size_suffixes_def)
  from k have "nat \<lfloor>q\<rfloor> < 7"
    by linarith
  then show "nat \<lfloor>q\<rfloor> < length size_suffixes"
    by (simp only: len)
  from len show "pretty_byte_total ln_fin n =
           printf_2f (fdiv (double_of_u64 n) (c_pow 1000 (nat \<lfloor>q\<rfloor>)))
           @ '' '' @ size_suffixes ! nat \<lfloor>q\<rfloor>"
    using suffix_index_small [OF k]
    by (simp add: pretty_byte_total_def Let_def assms(1) u del: c_log.simps)
qed

lemma pretty_byte_total_examples:
  "pretty_byte_total ln_samples 1500 = ''1.50 K''"
  "pretty_byte_total ln_samples 2500000 = ''2.50 M''"
proof -
  have q: "fdiv (c_log ln_samples (double_of_u64 1500)) (c_log ln_samples (Fin 1000))
             = Fin (4767947803592619 / 4503599627370496)"
          "fdiv (c_log ln_samples (double_of_u64 2500000)) (c_log ln_samples (Fin 1000))
             = Fin (37517916977857 / 17592186044416)"
    unfolding double_of_u64_examples ln_samples_logs by code_simp+
  have f: "nat \<lfloor>4767947803592619 / 4503599627370496 :: rat\<rfloor> = 1"
          "nat \<lfloor>37517916977857 / 17592186044416 :: rat\<rfloor> = 2"
    by code_simp+
  have c: "printf_2f (fdiv (Fin 1500) (c_pow 1000 (Suc 0))) = ''1.50''"
          "printf_2f (fdiv (Fin 2500000) (c_pow 1000 2)) = ''2.50''"
    by code_simp+
  show "pretty_byte_total ln_samples 1500 = ''1.50 K''"
    using pretty_byte_total_in_range(1) [OF q(1)]
    by (simp add: f c double_of_u64_examples size_suffixes_def)
  show "pretty_byte_total ln_samples 2500000 = ''2.50 M''"
    using pretty_byte_total_in_range(1) [OF q(2)]
    by (simp add: f c double_of_u64_examples size_suffixes_def)
qed

text \<open>
  Claim C6. \<^verbatim>\<open>pretty_byte_total\<close> takes as the index of the suffix the floor of the
  quotient \<^verbatim>\<open>log(n) / log(1000)\<close> computed in doubles: whenever the C library's
  logarithms are finite with \<open>0 \<le> log n \<le> 6.5 * log 1000\<close> (as for every
  \<open>1 \<le> n < 2 ^ 64\<close>, where the exact ratio is below 6.43), the quotient lies in
  \<open>[0, 7)\<close>, its floor is an index into the seven suffixes, and the result is the value
  divided by \<open>1000 ^ index\<close> with two decimals, a space and the suffix. With the
  \<open>B\<close> the caller appends, 1500 gives \<open>1.50 KB\<close> and 2500000 gives \<open>2.50 MB\<close>
  (with the C library's values of the logarithms). For \<open>n = 0\<close> the quotient is not
  finite; its conversion gives an index outside the range, which lines 209--211 set to 0, and
  the result is \<open>0.00 B\<close> whatever the C library returns for \<open>log 1000\<close>.
\<close>

theorem C6_pretty_byte_total:
  "(c_log ln_fin (double_of_u64 n) = Fin a \<and> c_log ln_fin (Fin 1000) = Fin b
      \<and> 0 \<le> a \<and> 0 < b \<and> a \<le> 13 / 2 * b \<longrightarrow>
      (\<exists>q. fdiv (Fin a) (Fin b) = Fin q \<and> 0 \<le> q \<and> q < 7
           \<and> nat \<lfloor>q\<rfloor> < length size_suffixes
           \<and> pretty_byte_total ln_fin n =
               printf_2f (fdiv (double_of_u64 n) (c_pow 1000 (nat \<lfloor>q\<rfloor>)))
               @ '' '' @ size_suffixes ! nat \<lfloor>q\<rfloor>))
   \<and> size_suffixes = [[], ''K'', ''M'', ''G'', ''T'', ''P'', ''E'']
   \<and> pretty_byte_total ln_samples 1500 @ ''B'' = ''1.50 KB''
   \<and> pretty_byte_total ln_samples 2500000 @ ''B'' = ''2.50 MB''
   \<and> pretty_byte_total ln_fin 0 @ ''B'' = ''0.00 B''"
proof -
  have "\<exists>q. fdiv (Fin a) (Fin b) = Fin q \<and> 0 \<le> q \<and> q < 7
           \<and> nat \<lfloor>q\<rfloor> < length size_suffixes
           \<and> pretty_byte_total ln_fin n =
               printf_2f (fdiv (double_of_u64 n) (c_pow 1000 (nat \<lfloor>q\<rfloor>)))
               @ '' '' @ size_suffixes ! nat \<lfloor>q\<rfloor>"
    if h: "c_log ln_fin (double_of_u64 n) = Fin a" "c_log ln_fin (Fin 1000) = Fin b"
       "0 \<le> a" "0 < b" "a \<le> 13 / 2 * b"
  proof -
    obtain q where q: "fdiv (Fin a) (Fin b) = Fin q" "0 \<le> q" "q < 7"
      using fdiv_log_quotient [OF h(3,4,5)] by blast
    have "fdiv (c_log ln_fin (double_of_u64 n)) (c_log ln_fin (Fin 1000)) = Fin q"
      by (simp only: h(1,2) q(1))
    from pretty_byte_total_in_range [OF this q(2,3)] q show ?thesis
      by blast
  qed
  then show ?thesis
    by (simp add: pretty_byte_total_examples pretty_byte_total_0 size_suffixes_def)
qed

theorem C6_pretty_byte_total_witness:
  "c_log ln_samples (double_of_u64 1500) = Fin (8233954152544549 / 1125899906842624)
   \<and> c_log ln_samples (Fin 1000) = Fin (243045032034301 / 35184372088832)
   \<and> (0 :: rat) \<le> 8233954152544549 / 1125899906842624
   \<and> (0 :: rat) < 243045032034301 / 35184372088832
   \<and> (8233954152544549 / 1125899906842624 :: rat) \<le> 13 / 2 * (243045032034301 / 35184372088832)
   \<and> (\<exists>q. fdiv (Fin (8233954152544549 / 1125899906842624)) (Fin (243045032034301 / 35184372088832))
             = Fin q \<and> 0 \<le> q \<and> q < 7
           \<and> pretty_byte_total ln_samples 1500 =
               printf_2f (fdiv (double_of_u64 1500) (c_pow 1000 (nat \<lfloor>q\<rfloor>)))
               @ '' '' @ size_suffixes ! nat \<lfloor>q\<rfloor>)"
proof -
  have h: "c_log ln_samples (double_of_u64 1500) = Fin (8233954152544549 / 1125899906842624)"
    "c_log ln_samples (Fin 1000) = Fin (243045032034301 / 35184372088832)"
    "(0 :: rat) \<le> 8233954152544549 / 1125899906842624"
    "(0 :: rat) < 243045032034301 / 35184372088832"
    "(8233954152544549 / 1125899906842624 :: rat) \<le> 13 / 2 * (243045032034301 / 35184372088832)"
    by (simp_all add: double_of_u64_examples ln_samples_logs del: c_log.simps)
  from C6_pretty_byte_total
    [where ln_fin = ln_samples and n = 1500 and a = "8233954152544549 / 1125899906842624"
       and b = "243045032034301 / 35184372088832"] h
  show ?thesis
    by blast
qed


section \<open>The rank lines of a render\<close>




lemma full_width_text_lines [simp]:
  "text_lines (surface (render_time_histogram pass view_title)) = text_lines (surface pass)"
  "text_lines (surface (render_map pass)) = text_lines (surface pass)"
  "text_lines (surface (render_packetfall pass)) = text_lines (surface pass)"
  by (simp_all add: render_time_histogram_def render_map_def render_packetfall_def Let_def
        text_lines_append)



lemma render_named_pair_report [simp]:
  "report (render_address_pair env pass left_addrs right_addrs) = report pass"
  "report (render_port_pair env pass left_ports right_ports) = report pass"
  by (simp_all add: render_address_pair_def render_port_pair_def)

lemma render_header_stores [simp]:
  "src_tree (report (render_header env pass)) = src_tree (report pass)"
  "dst_tree (report (render_header env pass)) = dst_tree (report pass)"
  "src_port_histogram (report (render_header env pass)) = src_port_histogram (report pass)"
  "dst_port_histogram (report (render_header env pass)) = dst_port_histogram (report pass)"
  "histogram_show_top_n_text (report (render_header env pass))
     = histogram_show_top_n_text (report pass)"
  by (simp_all add: render_header_report)


lemma example_percentages:
  "stat_percentage 50 90 = 55" "stat_percentage 90 90 = 100" "stat_percentage 80 90 = 88"
  "stat_percentage 30 90 = 33" "stat_percentage 10 90 = 11"
proof -
  have d: "double_of_u64 50 = Fin 50" "double_of_u64 90 = Fin 90" "double_of_u64 80 = Fin 80"
    "double_of_u64 30 = Fin 30" "double_of_u64 10 = Fin 10"
    by (simp_all add: double_of_u64_def) code_simp+
  have c: "cvttsd2si 32 (fmul (fdiv (Fin 50) (Fin 90)) (Fin 100)) = 55"
    "cvttsd2si 32 (fmul (fdiv (Fin 90) (Fin 90)) (Fin 100)) = 100"
    "cvttsd2si 32 (fmul (fdiv (Fin 80) (Fin 90)) (Fin 100)) = 88"
    "cvttsd2si 32 (fmul (fdiv (Fin 30) (Fin 90)) (Fin 100)) = 33"
    "cvttsd2si 32 (fmul (fdiv (Fin 10) (Fin 90)) (Fin 100)) = 11"
    by code_simp+
  show "stat_percentage 50 90 = 55" "stat_percentage 90 90 = 100" "stat_percentage 80 90 = 88"
    "stat_percentage 30 90 = 33" "stat_percentage 10 90 = 11"
    unfolding stat_percentage_def u8_of_double_def d c by simp_all
qed




lemma pretty_byte_total_small_examples:
  "pretty_byte_total ln_samples 90 = ''90.00 ''" "pretty_byte_total ln_samples 80 = ''80.00 ''"
  "pretty_byte_total ln_samples 50 = ''50.00 ''" "pretty_byte_total ln_samples 30 = ''30.00 ''" "pretty_byte_total ln_samples 10 = ''10.00 ''"
proof -
  have d: "double_of_u64 90 = Fin 90" "double_of_u64 80 = Fin 80" "double_of_u64 50 = Fin 50" "double_of_u64 30 = Fin 30" "double_of_u64 10 = Fin 10"
    by (simp_all add: double_of_u64_def) code_simp+
  have q:
    "fdiv (c_log ln_samples (double_of_u64 90)) (c_log ln_samples (Fin 1000))
       = Fin (5867417224868351 / 9007199254740992)"
    "fdiv (c_log ln_samples (double_of_u64 80)) (c_log ln_samples (Fin 1000))
       = Fin (2856918452089813 / 4503599627370496)"
    "fdiv (c_log ln_samples (double_of_u64 50)) (c_log ln_samples (Fin 1000))
       = Fin (19925730933441 / 35184372088832)"
    "fdiv (c_log ln_samples (double_of_u64 30)) (c_log ln_samples (Fin 1000))
       = Fin (4434908488224341 / 9007199254740992)"
    "fdiv (c_log ln_samples (double_of_u64 10)) (c_log ln_samples (Fin 1000))
       = Fin (3002399751580331 / 9007199254740992)"
    unfolding d by code_simp+
  have f:
    "nat \<lfloor>5867417224868351 / 9007199254740992 :: rat\<rfloor> = 0"
    "nat \<lfloor>2856918452089813 / 4503599627370496 :: rat\<rfloor> = 0"
    "nat \<lfloor>19925730933441 / 35184372088832 :: rat\<rfloor> = 0"
    "nat \<lfloor>4434908488224341 / 9007199254740992 :: rat\<rfloor> = 0"
    "nat \<lfloor>3002399751580331 / 9007199254740992 :: rat\<rfloor> = 0"
    by code_simp+
  have c:
    "printf_2f (fdiv (Fin 90) (c_pow 1000 0)) = ''90.00''"
    "printf_2f (fdiv (Fin 80) (c_pow 1000 0)) = ''80.00''"
    "printf_2f (fdiv (Fin 50) (c_pow 1000 0)) = ''50.00''"
    "printf_2f (fdiv (Fin 30) (c_pow 1000 0)) = ''30.00''"
    "printf_2f (fdiv (Fin 10) (c_pow 1000 0)) = ''10.00''"
    by code_simp+
  show "pretty_byte_total ln_samples 90 = ''90.00 ''"
    using pretty_byte_total_in_range(1) [OF q(1)]
    by (simp add: f c d size_suffixes_def)
  show "pretty_byte_total ln_samples 80 = ''80.00 ''"
    using pretty_byte_total_in_range(1) [OF q(2)]
    by (simp add: f c d size_suffixes_def)
  show "pretty_byte_total ln_samples 50 = ''50.00 ''"
    using pretty_byte_total_in_range(1) [OF q(3)]
    by (simp add: f c d size_suffixes_def)
  show "pretty_byte_total ln_samples 30 = ''30.00 ''"
    using pretty_byte_total_in_range(1) [OF q(4)]
    by (simp add: f c d size_suffixes_def)
  show "pretty_byte_total ln_samples 10 = ''10.00 ''"
    using pretty_byte_total_in_range(1) [OF q(5)]
    by (simp add: f c d size_suffixes_def)
qed

lemma example_side_lines:
  "side_line Address_stat_line example_env
     \<lparr> entries = [([10, 0, 0, 1], 90)], ingest_count = 90 \<rparr> 90 0
     = [Address_stat_line 1 [10, 0, 0, 1] ''90.00 '' 100]"
  "side_line Address_stat_line example_env
     \<lparr> entries = [([10, 0, 0, 2], 90)], ingest_count = 90 \<rparr> 90 0
     = [Address_stat_line 1 [10, 0, 0, 2] ''90.00 '' 100]"
  "0 < ii \<Longrightarrow> side_line Address_stat_line example_env
     \<lparr> entries = [(addr, 90)], ingest_count = 90 \<rparr> 90 ii = []"
  "side_line Port_stat_line example_env
     \<lparr> entries = [(80, 50), (22, 30), (8080, 10)], ingest_count = 90 \<rparr> 90 0
     = [Port_stat_line 1 80 ''50.00 '' 55]"
  "side_line Port_stat_line example_env
     \<lparr> entries = [(80, 50), (22, 30), (8080, 10)], ingest_count = 90 \<rparr> 90 (Suc 0)
     = [Port_stat_line 2 22 ''30.00 '' 33]"
  "side_line Port_stat_line example_env
     \<lparr> entries = [(80, 50), (22, 30), (8080, 10)], ingest_count = 90 \<rparr> 90 2
     = [Port_stat_line 3 8080 ''10.00 '' 11]"
  "side_line Port_stat_line example_env
     \<lparr> entries = [(443, 80), (25, 10)], ingest_count = 90 \<rparr> 90 0
     = [Port_stat_line 1 443 ''80.00 '' 88]"
  "side_line Port_stat_line example_env
     \<lparr> entries = [(443, 80), (25, 10)], ingest_count = 90 \<rparr> 90 (Suc 0)
     = [Port_stat_line 2 25 ''10.00 '' 11]"
  "side_line Port_stat_line example_env
     \<lparr> entries = [(443, 80), (25, 10)], ingest_count = 90 \<rparr> 90 2 = []"
  by (simp_all add: side_line_def has_stat_def example_env_def example_percentages
        pretty_byte_total_small_examples)


section \<open>Geometry of the paired charts\<close>

lemma fmax_Fin: "fmax (Fin a) (Fin b) = Fin (max a b)"
  by (simp add: fmax_def max_def)

lemma fmax_same: "fmax h h = h"
  by (simp add: fmax_def)

text \<open>The first call of a row in which a side has an entry: the line of the left side if it has
  one, else the line of the right side, one text height below the cursor.\<close>

lemma render_stat_row_first:
  fixes stat_line and env and left_data and right_data and total_count and ii
  assumes "has_stat left_data ii \<or> has_stat right_data ii"
  defines "t \<equiv> hd (side_line stat_line env left_data total_count ii
                    @ side_line stat_line env right_data total_count ii)"
  shows "\<exists>ops.
           surface (render_stat_row stat_line env left_data right_data total_count lb rb pass ii)
             = surface pass
               @ Show_text t (top_list_font_size (report pass))
                   (if has_stat left_data ii then b_x lb else b_x rb)
                   (fadd (end_of_content pass)
                      (text_extents_height env t (top_list_font_size (report pass)))) # ops
           \<and> list_all is_show_text ops"
proof (cases "has_stat left_data ii")
  case True
  let ?p1 = "fst (render_stat stat_line env left_data total_count (b_x lb) pass ii)"
  obtain ops where ops: "surface (fst (render_stat stat_line env right_data total_count (b_x rb) ?p1 ii))
      = surface ?p1 @ ops" "list_all is_show_text ops"
    using render_stat_surface by blast
  have "surface (render_stat_row stat_line env left_data right_data total_count lb rb pass ii)
          = surface (fst (render_stat stat_line env right_data total_count (b_x rb) ?p1 ii))"
    by (simp add: render_stat_row_def Let_def case_prod_beta)
  moreover have "surface ?p1 = surface pass
               @ [Show_text t (top_list_font_size (report pass)) (b_x lb)
                   (fadd (end_of_content pass)
                      (text_extents_height env t (top_list_font_size (report pass))))]"
    using True by (simp add: t_def side_line_def render_stat_def render_text_def Let_def case_prod_beta)
  ultimately show ?thesis
    using ops True by auto
next
  case False
  with assms(1) have r: "has_stat right_data ii"
    by simp
  have p1: "fst (render_stat stat_line env left_data total_count (b_x lb) pass ii) = pass"
    using False by (simp add: render_stat_def)
  have "surface (render_stat_row stat_line env left_data right_data total_count lb rb pass ii)
          = surface (fst (render_stat stat_line env right_data total_count (b_x rb) pass ii))"
    by (simp add: render_stat_row_def Let_def case_prod_beta p1)
  moreover have "surface (fst (render_stat stat_line env right_data total_count (b_x rb) pass ii))
             = surface pass
               @ [Show_text t (top_list_font_size (report pass)) (b_x rb)
                   (fadd (end_of_content pass)
                      (text_extents_height env t (top_list_font_size (report pass))))]"
    using r False by (simp add: t_def side_line_def render_stat_def render_text_def Let_def case_prod_beta)
  ultimately show ?thesis
    using False by auto
qed

lemma render_pair_first_row:
  fixes stat_line and env and left and right
  assumes "0 < histogram_show_top_n_text (report pass)"
    and "has_stat (get_data left) 0 \<or> has_stat (get_data right) 0"
  defines "t \<equiv> hd (side_line stat_line env (get_data left) (ingest_count (get_data left)) 0
                    @ side_line stat_line env (get_data right) (ingest_count (get_data left)) 0)"
  shows "\<exists>rest.
           surface (render_pair chart_height draw stat_line env pass left right)
             = surface pass
               @ [draw left (fst (pair_bounds pass chart_height)),
                  draw right (snd (pair_bounds pass chart_height))]
               @ Show_text t (top_list_font_size (report pass))
                   (if has_stat (get_data left) 0 then Fin 0
                    else fsub (b_width (surface_bounds pass))
                           (fdiv (b_width (surface_bounds pass)) (Fin (5 / 2))))
                   (fadd (fadd (end_of_content pass) chart_height)
                      (text_extents_height env t (top_list_font_size (report pass)))) # rest
           \<and> list_all is_show_text rest"
proof -
  let ?p1 = "render_pair_charts chart_height draw pass left right"
  let ?lb = "fst (pair_bounds pass chart_height)" and ?rb = "snd (pair_bounds pass chart_height)"
  let ?row = "render_stat_row stat_line env (get_data left) (get_data right)
                (ingest_count (get_data left)) ?lb ?rb"
  have p1: "surface ?p1 = surface pass @ [draw left ?lb, draw right ?rb]"
    "report ?p1 = report pass" "end_of_content ?p1 = fadd (end_of_content pass) chart_height"
    by (simp_all add: render_pair_charts_eq fmax_same)
  have n: "[0 ..< histogram_show_top_n_text (report pass)]
             = 0 # [Suc 0 ..< histogram_show_top_n_text (report pass)]"
    using assms(1) by (simp add: upt_conv_Cons)
  have x: "b_x ?lb = Fin 0"
    "b_x ?rb = fsub (b_width (surface_bounds pass))
                 (fdiv (b_width (surface_bounds pass)) (Fin (5 / 2)))"
    by (simp_all add: pair_bounds_def Let_def address_histogram_width_divisor_def)
  obtain ops where first:
    "surface (?row ?p1 0)
       = surface ?p1 @ Show_text t (top_list_font_size (report ?p1))
           (if has_stat (get_data left) 0 then b_x ?lb else b_x ?rb)
           (fadd (end_of_content ?p1)
              (text_extents_height env t (top_list_font_size (report ?p1)))) # ops"
    "list_all is_show_text ops"
    using render_stat_row_first [OF assms(2)] unfolding t_def by blast
  obtain ops2 where rest:
    "surface (foldl ?row (?row ?p1 0) [Suc 0 ..< histogram_show_top_n_text (report pass)])
       = surface (?row ?p1 0) @ ops2" "list_all is_show_text ops2"
    using foldl_render_stat_row_surface by blast
  have "surface (render_pair chart_height draw stat_line env pass left right)
          = surface (foldl ?row (?row ?p1 0) [Suc 0 ..< histogram_show_top_n_text (report pass)])"
    by (simp add: render_pair_def Let_def case_prod_beta p1(2) n)
  then show ?thesis
    using first rest unfolding p1 x
    by (intro exI [of _ "ops @ ops2"]) simp
qed

text \<open>The bounds of the example pass.\<close>

lemma example_pair_bounds:
  "b_width (pad_bounds new_report) = Fin (4836971552912179 / 8796093022208)"
  "fdiv (Fin (4836971552912179 / 8796093022208)) (Fin (5 / 2))
     = Fin (3869577242329743 / 17592186044416)"
  "fsub (Fin (4836971552912179 / 8796093022208)) (Fin (3869577242329743 / 17592186044416))
     = Fin (5804365863494615 / 17592186044416)"
proof -
  have "fsub (Fin 611) (fmul (fmul (Fin 611) (rnd (5 / 100))) (Fin 2))
          = Fin (4836971552912179 / 8796093022208)"
    by code_simp
  then show "b_width (pad_bounds new_report) = Fin (4836971552912179 / 8796093022208)"
    by (simp add: pad_bounds_def new_report_def page_margin_factor_def Let_def)
  show "fdiv (Fin (4836971552912179 / 8796093022208)) (Fin (5 / 2))
          = Fin (3869577242329743 / 17592186044416)"
    by code_simp
  show "fsub (Fin (4836971552912179 / 8796093022208))
                   (Fin (3869577242329743 / 17592186044416))
          = Fin (5804365863494615 / 17592186044416)"
    by code_simp
qed

text \<open>
  Claim C7. In both paired renders the two chart calls come first, each chart
  \<open>content_width / 2.5\<close> wide, the left one at \<open>x = 0\<close> and the right one at
  \<open>content_width - width\<close>, both at the cursor and both with the height constant of their
  type (125 for addresses, 100 for ports); everything after them is text. The cursor then
  advances by the maximum of the two chart heights, which is 125 for addresses and 100 for
  ports: when a side has an entry of rank 0, the first text row is set one text height below
  \<open>cursor + 125\<close> (addresses) or \<open>cursor + 100\<close> (ports), at the left edge if the
  left side has the entry and at the right chart's \<open>x\<close> otherwise. The maximum used,
  \<^verbatim>\<open>std::max\<close> on doubles, is the larger of two finite values.
\<close>

theorem C7_paired_chart_geometry:
  "(\<exists>rows.
      surface (render_address_pair env pass left_addrs right_addrs)
        = surface pass
          @ [Address_histogram_render left_addrs
               \<lparr> b_x = Fin 0, b_y = end_of_content pass,
                 b_width = fdiv (b_width (surface_bounds pass)) (Fin (5 / 2)),
                 b_height = Fin 125 \<rparr>,
             Address_histogram_render right_addrs
               \<lparr> b_x = fsub (b_width (surface_bounds pass))
                         (fdiv (b_width (surface_bounds pass)) (Fin (5 / 2))),
                 b_y = end_of_content pass,
                 b_width = fdiv (b_width (surface_bounds pass)) (Fin (5 / 2)),
                 b_height = Fin 125 \<rparr>]
          @ rows
      \<and> list_all is_show_text rows
      \<and> (0 < histogram_show_top_n_text (report pass)
           \<and> (has_stat (get_data left_addrs) 0 \<or> has_stat (get_data right_addrs) 0) \<longrightarrow>
          (let t = hd (side_line Address_stat_line env (get_data left_addrs)
                         (ingest_count (get_data left_addrs)) 0
                       @ side_line Address_stat_line env (get_data right_addrs)
                           (ingest_count (get_data left_addrs)) 0)
           in \<exists>rest. rows = Show_text t (top_list_font_size (report pass))
                          (if has_stat (get_data left_addrs) 0 then Fin 0
                           else fsub (b_width (surface_bounds pass))
                                  (fdiv (b_width (surface_bounds pass)) (Fin (5 / 2))))
                          (fadd (fadd (end_of_content pass) (Fin 125))
                             (text_extents_height env t (top_list_font_size (report pass))))
                        # rest)))
   \<and> (\<exists>rows.
      surface (render_port_pair env pass left_ports right_ports)
        = surface pass
          @ [Port_histogram_render left_ports
               \<lparr> b_x = Fin 0, b_y = end_of_content pass,
                 b_width = fdiv (b_width (surface_bounds pass)) (Fin (5 / 2)),
                 b_height = Fin 100 \<rparr>,
             Port_histogram_render right_ports
               \<lparr> b_x = fsub (b_width (surface_bounds pass))
                         (fdiv (b_width (surface_bounds pass)) (Fin (5 / 2))),
                 b_y = end_of_content pass,
                 b_width = fdiv (b_width (surface_bounds pass)) (Fin (5 / 2)),
                 b_height = Fin 100 \<rparr>]
          @ rows
      \<and> list_all is_show_text rows
      \<and> (0 < histogram_show_top_n_text (report pass)
           \<and> (has_stat (get_data left_ports) 0 \<or> has_stat (get_data right_ports) 0) \<longrightarrow>
          (let t = hd (side_line Port_stat_line env (get_data left_ports)
                         (ingest_count (get_data left_ports)) 0
                       @ side_line Port_stat_line env (get_data right_ports)
                           (ingest_count (get_data left_ports)) 0)
           in \<exists>rest. rows = Show_text t (top_list_font_size (report pass))
                          (if has_stat (get_data left_ports) 0 then Fin 0
                           else fsub (b_width (surface_bounds pass))
                                  (fdiv (b_width (surface_bounds pass)) (Fin (5 / 2))))
                          (fadd (fadd (end_of_content pass) (Fin 100))
                             (text_extents_height env t (top_list_font_size (report pass))))
                        # rest)))
   \<and> end_of_content (render_pair_charts address_histogram_height Address_histogram_render
                        pass left_addrs right_addrs)
       = fadd (end_of_content pass) (Fin 125)
   \<and> end_of_content (render_pair_charts port_histogram_height Port_histogram_render
                        pass left_ports right_ports)
       = fadd (end_of_content pass) (Fin 100)
   \<and> fmax (Fin a) (Fin b) = Fin (max a b)"
proof -
  have bounds: "pair_bounds pass h =
     (\<lparr> b_x = Fin 0, b_y = end_of_content pass,
        b_width = fdiv (b_width (surface_bounds pass)) (Fin (5 / 2)), b_height = h \<rparr>,
      \<lparr> b_x = fsub (b_width (surface_bounds pass))
                (fdiv (b_width (surface_bounds pass)) (Fin (5 / 2))),
        b_y = end_of_content pass,
        b_width = fdiv (b_width (surface_bounds pass)) (Fin (5 / 2)), b_height = h \<rparr>)" for h
    by (simp add: pair_bounds_def address_histogram_width_divisor_def Let_def)
  have generic: "\<exists>rows.
      surface (render_pair h draw stat_line env pass left right)
        = surface pass @ [draw left (fst (pair_bounds pass h)), draw right (snd (pair_bounds pass h))]
          @ rows
      \<and> list_all is_show_text rows
      \<and> (0 < histogram_show_top_n_text (report pass)
           \<and> (has_stat (get_data left) 0 \<or> has_stat (get_data right) 0) \<longrightarrow>
          (let t = hd (side_line stat_line env (get_data left) (ingest_count (get_data left)) 0
                       @ side_line stat_line env (get_data right) (ingest_count (get_data left)) 0)
           in \<exists>rest. rows = Show_text t (top_list_font_size (report pass))
                          (if has_stat (get_data left) 0 then Fin 0
                           else fsub (b_width (surface_bounds pass))
                                  (fdiv (b_width (surface_bounds pass)) (Fin (5 / 2))))
                          (fadd (fadd (end_of_content pass) h)
                             (text_extents_height env t (top_list_font_size (report pass))))
                        # rest))"
    for h and draw :: "'k histogram_view \<Rightarrow> bounds_t \<Rightarrow> draw_op" and stat_line left right
  proof -
    obtain rows where rows: "list_all is_show_text rows"
      "surface (render_pair h draw stat_line env pass left right)
        = surface pass @ [draw left (fst (pair_bounds pass h)), draw right (snd (pair_bounds pass h))]
          @ rows"
      using render_pair_surface [of h draw stat_line env pass left right] by blast
    have "let t = hd (side_line stat_line env (get_data left) (ingest_count (get_data left)) 0
                       @ side_line stat_line env (get_data right) (ingest_count (get_data left)) 0)
           in \<exists>rest. rows = Show_text t (top_list_font_size (report pass))
                          (if has_stat (get_data left) 0 then Fin 0
                           else fsub (b_width (surface_bounds pass))
                                  (fdiv (b_width (surface_bounds pass)) (Fin (5 / 2))))
                          (fadd (fadd (end_of_content pass) h)
                             (text_extents_height env t (top_list_font_size (report pass))))
                        # rest"
      if "0 < histogram_show_top_n_text (report pass)"
        "has_stat (get_data left) 0 \<or> has_stat (get_data right) 0"
      using render_pair_first_row [OF that, of h draw stat_line env] rows(2)
      unfolding Let_def by auto
    with rows show ?thesis
      by (intro exI [of _ rows]) simp
  qed
  have cursor: "end_of_content (render_pair_charts h draw pass left right)
                  = fadd (end_of_content pass) h"
    for h and draw :: "'k histogram_view \<Rightarrow> bounds_t \<Rightarrow> draw_op" and left right
    by (simp add: render_pair_charts_eq fmax_same)
  show ?thesis
    using generic [of "Fin 125" Address_histogram_render Address_stat_line left_addrs right_addrs]
      generic [of "Fin 100" Port_histogram_render Port_stat_line left_ports right_ports]
    unfolding bounds fst_conv snd_conv render_address_pair_def render_port_pair_def
      address_histogram_height_def port_histogram_height_def cursor
    by (simp only: fmax_Fin simp_thms)
qed

text \<open>The port pair of the example capture, rendered with the cursor at 76: both charts are
  placed at \<open>y = 76\<close> and the first text row is set at \<open>76 + 100 + 8\<close>.\<close>

theorem C7_paired_chart_geometry_witness:
  "0 < histogram_show_top_n_text (report example_pass)
   \<and> has_stat (get_data example_left_ports) 0
   \<and> end_of_content example_pass = Fin 76
   \<and> take 3 (surface (render_port_pair example_env example_pass
                        example_left_ports example_right_ports))
       = [Port_histogram_render example_left_ports
            \<lparr> b_x = Fin 0, b_y = Fin 76, b_width = Fin (3869577242329743 / 17592186044416),
              b_height = Fin 100 \<rparr>,
          Port_histogram_render example_right_ports
            \<lparr> b_x = Fin (5804365863494615 / 17592186044416), b_y = Fin 76,
              b_width = Fin (3869577242329743 / 17592186044416), b_height = Fin 100 \<rparr>,
          Show_text (Port_stat_line 1 80 ''50.00 '' 55) (Fin 8) (Fin 0) (Fin 184)]"
proof -
  have n: "0 < histogram_show_top_n_text (report example_pass)"
    "has_stat (get_data example_left_ports) 0"
    by (simp_all add: example_pass_def new_report_def example_left_ports_def has_stat_def)
  have t: "hd (side_line Port_stat_line example_env (get_data example_left_ports)
                 (ingest_count (get_data example_left_ports)) 0
               @ side_line Port_stat_line example_env (get_data example_right_ports)
                   (ingest_count (get_data example_left_ports)) 0)
             = Port_stat_line 1 80 ''50.00 '' 55"
    by (simp add: example_left_ports_def example_side_lines)
  have y: "fadd (fadd (Fin 76) (Fin 100)) (Fin 8) = Fin 184"
    by code_simp
  have p: "surface example_pass = []" "end_of_content example_pass = Fin 76"
    "surface_bounds example_pass = pad_bounds new_report"
    "top_list_font_size (report example_pass) = Fin 8"
    by (simp_all add: example_pass_def new_report_def)
  have h: "text_extents_height example_env line f = f" for line f
    by (simp add: example_env_def)
  from C7_paired_chart_geometry
         [where pass = example_pass and env = example_env
            and left_ports = example_left_ports and right_ports = example_right_ports
            and left_addrs = "\<lparr> title = [], get_data = \<lparr> entries = [], ingest_count = 0 \<rparr> \<rparr>"
            and right_addrs = "\<lparr> title = [], get_data = \<lparr> entries = [], ingest_count = 0 \<rparr> \<rparr>"
            and a = 100 and b = 100,
          THEN conjunct2, THEN conjunct1]
  obtain rest where
    "surface (render_port_pair example_env example_pass example_left_ports example_right_ports)
       = [Port_histogram_render example_left_ports
            \<lparr> b_x = Fin 0, b_y = Fin 76, b_width = Fin (3869577242329743 / 17592186044416),
              b_height = Fin 100 \<rparr>,
          Port_histogram_render example_right_ports
            \<lparr> b_x = Fin (5804365863494615 / 17592186044416), b_y = Fin 76,
              b_width = Fin (3869577242329743 / 17592186044416), b_height = Fin 100 \<rparr>]
         @ Show_text (Port_stat_line 1 80 ''50.00 '' 55) (Fin 8) (Fin 0) (Fin 184) # rest"
    unfolding Let_def t p h example_pair_bounds y using n by auto
  then show ?thesis
    using n p(2) by simp
qed

end
